theory Spec2Isabelle
  imports Complex_Main "HOL-Library.Signed_Division"
begin

section \<open>Data model of \<open>src/app/page.tsx\<close>\<close>

text \<open>
  The component \<open>AcidHouseSynth\<close> keeps React state (parameters, patterns, transport and
  effect flags) and a set of refs to long-lived Web Audio nodes. JavaScript numbers are
  idealised as real numbers: the formulas of the source are kept as written, rounding of
  IEEE doubles is not modelled.
\<close>

datatype OscillatorType = Sine | Sawtooth | Square | Triangle

text \<open>\<open>interface SynthParams\<close>; the TypeScript type of \<open>oscillatorType\<close> admits only
  sawtooth, square and triangle.\<close>

record SynthParams =
  oscillatorType :: OscillatorType
  cutoff :: real
  resonance :: real
  attack :: real
  decay :: real
  sustain :: real
  release :: real
  delayTime :: real
  delayFeedback :: real

record DrumParams =
  kickTone :: real
  kickDecay :: real
  snareNoise :: real
  snareTone :: real
  snareDecay :: real
  hiHatOpen :: real
  hiHatDecay :: real
  tomTone :: real
  tomDecay :: real
  clapDecay :: real
  percTone :: real
  percDecay :: real
  tempo :: real

definition defaultSynthParams :: SynthParams where
  "defaultSynthParams = \<lparr> oscillatorType = Sawtooth, cutoff = 50, resonance = 20,
     attack = 20, decay = 40, sustain = 70, release = 30, delayTime = 30, delayFeedback = 40 \<rparr>"

definition defaultDrumParams :: DrumParams where
  "defaultDrumParams = \<lparr> kickTone = 50, kickDecay = 200, snareNoise = 50, snareTone = 50,
     snareDecay = 150, hiHatOpen = 50, hiHatDecay = 80, tomTone = 100, tomDecay = 300,
     clapDecay = 150, percTone = 800, percDecay = 100, tempo = 120 \<rparr>"

subsection \<open>Web Audio nodes, parameters and automation events\<close>

text \<open>
  The long-lived nodes are the ones held in refs (\<open>masterGainRef\<close>, \<open>delayNodeRef\<close>,
  \<open>delayFeedbackGainRef\<close>, \<open>reverbConvolverRef\<close>, \<open>compressionNodeRef\<close>, \<open>duckGainRef\<close>,
  \<open>kickGainRef\<close>) and \<open>ctx.destination\<close>. Every \<open>ctx.create...\<close> call of a trigger
  allocates a node \<open>Fresh i\<close> with the next unused number.
\<close>

datatype node =
  Master | Delay | DelayFeedback | Reverb | Compressor | DuckGain | KickGain | Destination
  | Fresh nat

datatype BiquadType = Lowpass | Highpass

datatype node_kind = Oscillator OscillatorType | GainNode | BiquadFilter BiquadType | BufferSource

text \<open>The parameters the source touches, named by the interface they belong to: the
  \<open>frequency\<close> of an oscillator and the \<open>frequency\<close> of a biquad filter are different
  parameters.\<close>

datatype param =
  PGain | POscFrequency | PFilterFrequency | PQ | PDelayTime
  | PThreshold | PKnee | PRatio | PAttack | PRelease

text \<open>Automation calls on an \<open>AudioParam\<close>, arguments in the order of the Web Audio API:
  \<open>setValueAtTime(value, startTime)\<close>, \<open>linearRampToValueAtTime(value, endTime)\<close>,
  \<open>exponentialRampToValueAtTime(value, endTime)\<close>,
  \<open>setTargetAtTime(target, startTime, timeConstant)\<close>.\<close>

datatype event =
  SetValueAtTime real real
  | LinearRampToValueAtTime real real
  | ExponentialRampToValueAtTime real real
  | SetTargetAtTime real real real

text \<open>
  The audio side of the component: whether the mount effect has filled the refs, the audio
  clock, the allocation counter, the kind of every allocated node, the connections, the
  \<open>.value\<close> assignments and the automation calls in call order, and the start and stop
  calls. In the component state \<open>timeouts\<close> counts the pending \<open>setTimeout\<close> callbacks,
  \<open>captured\<close> and \<open>interval\<close> are what the sequencer effect left at its last run, and
  \<open>wall\<close> is the wall clock in milliseconds.
\<close>

record engine =
  initialized :: bool
  currentTime :: real
  next_id :: nat
  kinds :: "nat \<rightharpoonup> node_kind"
  edges :: "(node \<times> node) list"
  assignments :: "((node \<times> param) \<times> real) list"
  autom :: "((node \<times> param) \<times> event) list"
  starts :: "(node \<times> real) list"
  stops :: "(node \<times> real) list"

datatype js_error = TypeError

text \<open>
  The callback of \<open>setInterval\<close> is created by the sequencer effect and keeps the
  \<open>playSynthNote\<close> and \<open>playDrumSound\<close> of the render in which the effect last ran. The
  values those read that are not in the effect's dependency list (line 471) are
  \<open>synthParams\<close>, \<open>drumParams\<close>, \<open>delayEnabled\<close> and \<open>reverbEnabled\<close>: a \<open>closure\<close> holds
  them as they were at that run. A \<open>timer\<close> is a registered interval: the delay handed to
  \<open>setInterval\<close> in milliseconds and the wall-clock time of the call.
\<close>

record closure =
  c_synthParams :: SynthParams
  c_drumParams :: DrumParams
  c_delayEnabled :: bool
  c_reverbEnabled :: bool

record timer =
  period_ms :: real
  set_at :: real

record app =
  synthParams :: SynthParams
  drumParams :: DrumParams
  currentStep :: int
  isPlaying :: bool
  delayEnabled :: bool
  reverbEnabled :: bool
  compressionEnabled :: bool
  duckKick :: bool
  synthSequencer :: "bool list"
  drumSequencer :: "(string \<times> bool list) list"
  audio :: engine
  timeouts :: nat
  captured :: closure
  interval :: "timer option"
  wall :: real

subsection \<open>Primitive operations of the Web Audio API\<close>

text \<open>\<open>a.connect(b)\<close>: a connection that already exists is not added a second time.\<close>

definition connect :: "node \<Rightarrow> node \<Rightarrow> engine \<Rightarrow> engine" where
  "connect a b e = e\<lparr>edges := List.insert (a, b) (edges e)\<rparr>"

text \<open>\<open>a.disconnect()\<close> without arguments removes every outgoing connection of \<open>a\<close>.\<close>

definition disconnect :: "node \<Rightarrow> engine \<Rightarrow> engine" where
  "disconnect a e = e\<lparr>edges := filter (\<lambda>c. fst c \<noteq> a) (edges e)\<rparr>"

definition fresh :: "engine \<Rightarrow> node" where
  "fresh e = Fresh (next_id e)"

definition create :: "node_kind \<Rightarrow> engine \<Rightarrow> engine" where
  "create k e = e\<lparr>next_id := Suc (next_id e), kinds := (kinds e)(next_id e \<mapsto> k)\<rparr>"

definition set_type :: "node \<Rightarrow> node_kind \<Rightarrow> engine \<Rightarrow> engine" where
  "set_type n k e = (case n of Fresh i \<Rightarrow> e\<lparr>kinds := (kinds e)(i \<mapsto> k)\<rparr> | _ \<Rightarrow> e)"

definition set_value :: "node \<Rightarrow> param \<Rightarrow> real \<Rightarrow> engine \<Rightarrow> engine" where
  "set_value n p v e = e\<lparr>assignments := assignments e @ [((n, p), v)]\<rparr>"

definition schedule :: "node \<Rightarrow> param \<Rightarrow> event \<Rightarrow> engine \<Rightarrow> engine" where
  "schedule n p ev e = e\<lparr>autom := autom e @ [((n, p), ev)]\<rparr>"

definition start :: "node \<Rightarrow> real \<Rightarrow> engine \<Rightarrow> engine" where
  "start n t e = e\<lparr>starts := starts e @ [(n, t)]\<rparr>"

definition stop :: "node \<Rightarrow> real \<Rightarrow> engine \<Rightarrow> engine" where
  "stop n t e = e\<lparr>stops := stops e @ [(n, t)]\<rparr>"

text \<open>Observations: the nodes a node is connected to, and the automation of a parameter.\<close>

definition outs :: "engine \<Rightarrow> node \<Rightarrow> node set" where
  "outs e n = set (map snd (filter (\<lambda>c. fst c = n) (edges e)))"

definition ins :: "engine \<Rightarrow> node \<Rightarrow> node set" where
  "ins e n = set (map fst (filter (\<lambda>c. snd c = n) (edges e)))"

definition events_of :: "engine \<Rightarrow> node \<Rightarrow> param \<Rightarrow> event list" where
  "events_of e n p = map snd (filter (\<lambda>x. fst x = (n, p)) (autom e))"

subsection \<open>The mount effect (lines 96 to 177)\<close>

text \<open>The asynchronous loading of the reverb impulse response touches no state modelled
  here and is left out.\<close>

definition mount_engine :: "engine \<Rightarrow> engine" where
  "mount_engine e0 =
    (let e = e0\<lparr>initialized := True\<rparr>;
         e = set_value Master PGain 0.7 e;
         e = set_value Delay PDelayTime 0.3 e;
         e = set_value DelayFeedback PGain 0.4 e;
         e = connect Delay DelayFeedback e;
         e = connect DelayFeedback Delay e;
         e = schedule Compressor PThreshold (SetValueAtTime (- 24) (currentTime e)) e;
         e = schedule Compressor PKnee (SetValueAtTime 30 (currentTime e)) e;
         e = schedule Compressor PRatio (SetValueAtTime 12 (currentTime e)) e;
         e = schedule Compressor PAttack (SetValueAtTime 0.003 (currentTime e)) e;
         e = schedule Compressor PRelease (SetValueAtTime 0.25 (currentTime e)) e;
         e = set_value DuckGain PGain 1 e;
         e = connect Delay DelayFeedback e;
         e = connect Delay Reverb e;
         e = connect Reverb Compressor e;
         e = connect Compressor Destination e;
         e = connect Master Compressor e
     in e)"

definition engine0 :: engine where
  "engine0 = \<lparr> initialized = False, currentTime = 0, next_id = 0, kinds = Map.empty,
     edges = [], assignments = [], autom = [], starts = [], stops = [] \<rparr>"

definition app0 :: app where
  "app0 = \<lparr> synthParams = defaultSynthParams, drumParams = defaultDrumParams,
     currentStep = 0, isPlaying = False, delayEnabled = False, reverbEnabled = False,
     compressionEnabled = False, duckKick = False,
     synthSequencer = replicate 16 False,
     drumSequencer = [(''kick'', replicate 16 False), (''snare'', replicate 16 False),
       (''hihat'', replicate 16 False), (''tom'', replicate 16 False),
       (''clap'', replicate 16 False), (''perc'', replicate 16 False)],
     audio = engine0, timeouts = 0,
     captured = \<lparr> c_synthParams = defaultSynthParams, c_drumParams = defaultDrumParams,
       c_delayEnabled = False, c_reverbEnabled = False \<rparr>,
     interval = None, wall = 0 \<rparr>"

text \<open>The effect "Update delay parameters" (lines 180 to 185) runs after the mount effect
  and after every change of \<open>synthParams.delayTime\<close> or \<open>synthParams.delayFeedback\<close>.\<close>

definition updateDelayParams :: "app \<Rightarrow> app" where
  "updateDelayParams s =
    (if initialized (audio s) then
       s\<lparr>audio :=
           set_value DelayFeedback PGain (delayFeedback (synthParams s) / 100)
             (set_value Delay PDelayTime (delayTime (synthParams s) / 100 * 1.0) (audio s))\<rparr>
     else s)"

definition mount :: "app \<Rightarrow> app" where
  "mount s = updateDelayParams (s\<lparr>audio := mount_engine (audio s)\<rparr>)"

subsection \<open>\<open>connectToEffectsChain\<close> (lines 360 to 427)\<close>

text \<open>The local variable \<open>destination\<close> of the source is assigned but never read and is
  left out; \<open>inputNode\<close> is the argument \<open>nd\<close>.\<close>

definition connectToEffectsChain :: "node \<Rightarrow> app \<Rightarrow> app" where
  "connectToEffectsChain nd s =
    (if \<not> initialized (audio s) then s
     else
      let e = disconnect nd (audio s);
          e = (if delayEnabled s then connect nd Delay e else connect nd Master e);
          e = (if reverbEnabled s then
                 (if delayEnabled s then connect Delay Reverb (disconnect Delay e)
                  else connect nd Reverb (disconnect nd e))
               else
                 (if delayEnabled s then connect Delay Master (disconnect Delay e) else e));
          e = (if compressionEnabled s then
                 connect Compressor Destination
                   (if reverbEnabled s then connect Reverb Compressor (disconnect Reverb e)
                    else if delayEnabled s then connect Delay Compressor (disconnect Delay e)
                    else connect nd Compressor (disconnect nd e))
               else
                 (if reverbEnabled s then connect Reverb Destination (disconnect Reverb e)
                  else if delayEnabled s then connect Delay Destination (disconnect Delay e)
                  else connect nd Destination (disconnect nd e)))
      in s\<lparr>audio := e\<rparr>)"

text \<open>The contract of the specification, section 4.3, in its own words: the ordered list of
  enabled stages, and the chain that leads from a source through them to the output.\<close>

definition spec_computeTopology :: "bool \<Rightarrow> bool \<Rightarrow> bool \<Rightarrow> node list" where
  "spec_computeTopology d r c =
     (if d then [Delay] else []) @ (if r then [Reverb] else []) @ (if c then [Compressor] else [])"

definition stages_of :: "app \<Rightarrow> node list" where
  "stages_of s = spec_computeTopology (delayEnabled s) (reverbEnabled s) (compressionEnabled s)"

subsection \<open>\<open>playSynthNote\<close> (lines 188 to 227)\<close>

text \<open>\<open>createOscillator\<close> yields a sine oscillator and \<open>createBiquadFilter\<close> a lowpass
  filter; the source then assigns \<open>type\<close>.\<close>

definition playSynthNote :: "real \<Rightarrow> app \<Rightarrow> app" where
  "playSynthNote frequency s =
    (if \<not> initialized (audio s) then s
     else
      let e = audio s;
          osc = fresh e;
          e = create (Oscillator Sine) e;
          e = set_type osc (Oscillator (oscillatorType (synthParams s))) e;
          e = set_value osc POscFrequency frequency e;
          gainNode = fresh e;
          e = create GainNode e;
          e = set_value gainNode PGain 0 e;
          filt = fresh e;
          e = create (BiquadFilter Lowpass) e;
          e = set_type filt (BiquadFilter Lowpass) e;
          e = set_value filt PFilterFrequency 20000 e;
          e = set_value filt PQ (resonance (synthParams s) / 10) e;
          e = connect osc gainNode e;
          e = connect gainNode filt e;
          e = audio (connectToEffectsChain filt (s\<lparr>audio := e\<rparr>));
          now = currentTime e;
          attackTime = attack (synthParams s) / 100;
          decayTime = decay (synthParams s) / 100;
          sustainLevel = sustain (synthParams s) / 100;
          releaseTime = release (synthParams s) / 100;
          e = schedule gainNode PGain (SetValueAtTime 0 now) e;
          e = schedule gainNode PGain (LinearRampToValueAtTime 1 (now + attackTime)) e;
          e = schedule gainNode PGain
                (LinearRampToValueAtTime sustainLevel (now + attackTime + decayTime)) e;
          e = schedule filt PFilterFrequency (SetValueAtTime 20000 now) e;
          e = schedule filt PFilterFrequency
                (LinearRampToValueAtTime (cutoff (synthParams s) * 200) (now + 0.1)) e;
          e = start osc now e;
          e = schedule gainNode PGain
                (SetTargetAtTime 0 (now + attackTime + decayTime) (releaseTime / 10)) e;
          e = stop osc (now + attackTime + decayTime + releaseTime + 0.1) e
      in s\<lparr>audio := e\<rparr>)"

subsection \<open>\<open>playDrumSound\<close> (lines 230 to 346)\<close>

text \<open>One definition for each case of the \<open>switch\<close>. \<open>osc.start()\<close> and \<open>noise.start()\<close>
  are called without an argument, whose default is 0 (start at once). The content of the
  noise buffer (\<open>createNoiseBuffer\<close>, random samples) is not modelled.\<close>

definition kick_case :: "app \<Rightarrow> app" where
  "kick_case s =
    (let e = audio s; dp = drumParams s; now = currentTime e;
         osc = fresh e;
         e = create (Oscillator Sine) e;
         gainNode = fresh e;
         e = create GainNode e;
         e = schedule osc POscFrequency (SetValueAtTime (150 + (kickTone dp * 5)) now) e;
         e = schedule gainNode PGain (SetValueAtTime 1 now) e;
         e = set_type osc (Oscillator Sine) e;
         e = connect osc gainNode e;
         e = connect gainNode KickGain e;
         e = connect KickGain Master e;
         e = start osc 0 e;
         e = schedule osc POscFrequency
               (ExponentialRampToValueAtTime 20 (now + kickDecay dp / 1000)) e;
         e = schedule gainNode PGain
               (ExponentialRampToValueAtTime 0.001 (now + kickDecay dp / 1000)) e;
         e = stop osc (now + kickDecay dp / 1000 + 0.05) e
     in s\<lparr>audio := e\<rparr>)"

definition snare_case :: "app \<Rightarrow> app" where
  "snare_case s =
    (let e = audio s; dp = drumParams s; now = currentTime e;
         noise = fresh e;
         e = create BufferSource e;
         noiseGain = fresh e;
         e = create GainNode e;
         e = schedule noiseGain PGain (SetValueAtTime 0.5 now) e;
         osc = fresh e;
         e = create (Oscillator Sine) e;
         oscGain = fresh e;
         e = create GainNode e;
         e = set_type osc (Oscillator Triangle) e;
         e = schedule osc POscFrequency (SetValueAtTime (100 + (snareTone dp * 2)) now) e;
         e = schedule oscGain PGain (SetValueAtTime 0.3 now) e;
         e = connect noise noiseGain e;
         e = connect noiseGain Master e;
         e = connect osc oscGain e;
         e = connect oscGain Master e;
         e = start noise 0 e;
         e = start osc 0 e;
         e = schedule noiseGain PGain
               (ExponentialRampToValueAtTime 0.01 (now + snareDecay dp / 1000)) e;
         e = schedule oscGain PGain
               (ExponentialRampToValueAtTime 0.01 (now + snareDecay dp / 1000)) e;
         e = stop noise (now + snareDecay dp / 1000) e;
         e = stop osc (now + snareDecay dp / 1000) e
     in s\<lparr>audio := e\<rparr>)"

definition hihat_case :: "app \<Rightarrow> app" where
  "hihat_case s =
    (let e = audio s; dp = drumParams s; now = currentTime e;
         noise = fresh e;
         e = create BufferSource e;
         noiseGain = fresh e;
         e = create GainNode e;
         e = schedule noiseGain PGain (SetValueAtTime 0.3 now) e;
         filt = fresh e;
         e = create (BiquadFilter Lowpass) e;
         e = set_type filt (BiquadFilter Highpass) e;
         e = schedule filt PFilterFrequency (SetValueAtTime (7000 - (hiHatOpen dp * 50)) now) e;
         e = connect noise filt e;
         e = connect filt noiseGain e;
         e = connect noiseGain Master e;
         e = start noise 0 e;
         e = schedule noiseGain PGain
               (ExponentialRampToValueAtTime 0.01 (now + hiHatDecay dp / 1000)) e;
         e = stop noise (now + hiHatDecay dp / 1000) e
     in s\<lparr>audio := e\<rparr>)"

definition tom_case :: "app \<Rightarrow> app" where
  "tom_case s =
    (let e = audio s; dp = drumParams s; now = currentTime e;
         osc = fresh e;
         e = create (Oscillator Sine) e;
         gainNode = fresh e;
         e = create GainNode e;
         e = set_type osc (Oscillator Sine) e;
         e = schedule osc POscFrequency (SetValueAtTime (tomTone dp) now) e;
         e = schedule gainNode PGain (SetValueAtTime 0.7 now) e;
         e = connect osc gainNode e;
         e = connect gainNode Master e;
         e = start osc 0 e;
         e = schedule gainNode PGain
               (ExponentialRampToValueAtTime 0.01 (now + tomDecay dp / 1000)) e;
         e = stop osc (now + tomDecay dp / 1000 + 0.05) e
     in s\<lparr>audio := e\<rparr>)"

definition clap_case :: "app \<Rightarrow> app" where
  "clap_case s =
    (let e = audio s; dp = drumParams s; now = currentTime e;
         noise = fresh e;
         e = create BufferSource e;
         noiseGain = fresh e;
         e = create GainNode e;
         e = schedule noiseGain PGain (SetValueAtTime 0.5 now) e;
         e = connect noise noiseGain e;
         e = connect noiseGain Master e;
         e = start noise 0 e;
         e = schedule noiseGain PGain
               (ExponentialRampToValueAtTime 0.01 (now + clapDecay dp / 1000)) e;
         e = stop noise (now + clapDecay dp / 1000) e
     in s\<lparr>audio := e\<rparr>)"

definition perc_case :: "app \<Rightarrow> app" where
  "perc_case s =
    (let e = audio s; dp = drumParams s; now = currentTime e;
         osc = fresh e;
         e = create (Oscillator Sine) e;
         gainNode = fresh e;
         e = create GainNode e;
         e = set_type osc (Oscillator Sawtooth) e;
         e = schedule osc POscFrequency (SetValueAtTime (percTone dp) now) e;
         e = schedule gainNode PGain (SetValueAtTime 0.5 now) e;
         e = connect osc gainNode e;
         e = connect gainNode Master e;
         e = start osc 0 e;
         e = schedule gainNode PGain
               (ExponentialRampToValueAtTime 0.01 (now + percDecay dp / 1000)) e;
         e = stop osc (now + percDecay dp / 1000 + 0.05) e
     in s\<lparr>audio := e\<rparr>)"

text \<open>The argument is typed as one of the six names, but the sequencer passes any key of
  \<open>drumSequencer\<close> (\<open>instrument as any\<close>); a string that matches no case does nothing.\<close>

definition playDrumSound :: "string \<Rightarrow> app \<Rightarrow> app" where
  "playDrumSound ty s =
    (if \<not> initialized (audio s) then s
     else if ty = ''kick'' then kick_case s
     else if ty = ''snare'' then snare_case s
     else if ty = ''hihat'' then hihat_case s
     else if ty = ''tom'' then tom_case s
     else if ty = ''clap'' then clap_case s
     else if ty = ''perc'' then perc_case s
     else s)"

subsection \<open>The sequencer (lines 430 to 487)\<close>

text \<open>Reading a boolean array at a number: outside the array the result is \<open>undefined\<close>,
  which is falsy.\<close>

definition js_index :: "bool list \<Rightarrow> int \<Rightarrow> bool" where
  "js_index xs i = (0 \<le> i \<and> nat i < length xs \<and> xs ! nat i)"

text \<open>Writing a boolean array at an index: beyond the end the array grows, the holes read
  as falsy.\<close>

definition js_assign :: "bool list \<Rightarrow> nat \<Rightarrow> bool \<Rightarrow> bool list" where
  "js_assign xs i v =
     (if i < length xs then xs[i := v] else xs @ replicate (i - length xs) False @ [v])"

definition stepTime :: "real \<Rightarrow> real" where
  "stepTime bpm = (60 / bpm) * 1000 / 4"

definition togglePlay :: "app \<Rightarrow> app" where
  "togglePlay s = s\<lparr>isPlaying := \<not> isPlaying s\<rparr>"

text \<open>The duck envelope of a tick, and the callback of its \<open>setTimeout\<close>, which runs
  \<open>stepTime * 0.75\<close> milliseconds later.\<close>

definition duck :: "app \<Rightarrow> app" where
  "duck s =
    (if initialized (audio s) then
       s\<lparr>audio := schedule DuckGain PGain (SetTargetAtTime 0.3 (currentTime (audio s)) 0.05)
                    (audio s),
         timeouts := Suc (timeouts s)\<rparr>
     else s)"

definition duck_release :: "app \<Rightarrow> app" where
  "duck_release s =
    (if initialized (audio s) then
       s\<lparr>audio := schedule DuckGain PGain (SetTargetAtTime 1 (currentTime (audio s)) 0.1)
                    (audio s),
         timeouts := timeouts s - 1\<rparr>
     else s\<lparr>timeouts := timeouts s - 1\<rparr>)"

text \<open>
  The sequencer effect (lines 438 to 471). React runs it after the first render and after
  every render in which \<open>isPlaying\<close>, \<open>currentStep\<close>, \<open>synthSequencer\<close>, \<open>drumSequencer\<close>,
  \<open>drumParams.tempo\<close>, \<open>compressionEnabled\<close> or \<open>duckKick\<close> has changed: the cleanup of the
  previous run clears its interval, and while playing a new interval is registered with
  the delay \<open>stepTime\<close>, whose callback closes over the current render.
\<close>

definition capture :: "app \<Rightarrow> closure" where
  "capture s = \<lparr> c_synthParams = synthParams s, c_drumParams = drumParams s,
     c_delayEnabled = delayEnabled s, c_reverbEnabled = reverbEnabled s \<rparr>"

definition sequencer_effect :: "app \<Rightarrow> app" where
  "sequencer_effect s =
     s\<lparr>captured := capture s,
       interval := (if isPlaying s
                    then Some \<lparr> period_ms = stepTime (tempo (drumParams s)), set_at = wall s \<rparr>
                    else None)\<rparr>"

text \<open>The state as the callback's \<open>playSynthNote\<close> and \<open>playDrumSound\<close> see it: the refs
  are live, the four captured values are those of the effect's last run.\<close>

definition stale :: "app \<Rightarrow> app" where
  "stale s =
     s\<lparr>synthParams := c_synthParams (captured s), drumParams := c_drumParams (captured s),
       delayEnabled := c_delayEnabled (captured s),
       reverbEnabled := c_reverbEnabled (captured s)\<rparr>"

definition play_drums :: "int \<Rightarrow> (string \<times> bool list) list \<Rightarrow> app \<Rightarrow> app" where
  "play_drums cs lanes s =
     fold (\<lambda>(instrument, steps) a. if js_index steps cs then playDrumSound instrument a else a)
       lanes s"

text \<open>The callback of \<open>setInterval\<close>. The voices are triggered by the captured functions on
  the live audio refs; everything else the callback reads is in the dependency list and
  so is current. \<open>drumSequencer.kick[currentStep]\<close> throws a TypeError when the key is
  missing; JavaScript evaluates it only after the two flags.\<close>

definition tick :: "app \<Rightarrow> js_error + app" where
  "tick s =
    (let cs = currentStep s;
         v1 = (if js_index (synthSequencer s) cs
               then playSynthNote (300 + (real_of_int cs * 20)) (stale s) else stale s);
         v2 = play_drums cs (drumSequencer s) v1;
         s2 = s\<lparr>audio := audio v2\<rparr>
     in if compressionEnabled s \<and> duckKick s then
          (case map_of (drumSequencer s) ''kick'' of
             None \<Rightarrow> Inl TypeError
           | Some steps \<Rightarrow>
               Inr ((if js_index steps cs then duck s2 else s2)
                      \<lparr>currentStep := (currentStep s + 1) smod 16\<rparr>))
        else Inr (s2\<lparr>currentStep := (currentStep s + 1) smod 16\<rparr>))"

definition toggleSynthSequencerStep :: "nat \<Rightarrow> app \<Rightarrow> app" where
  "toggleSynthSequencerStep index s =
     s\<lparr>synthSequencer :=
         js_assign (synthSequencer s) index (\<not> js_index (synthSequencer s) (int index))\<rparr>"

text \<open>\<open>[...prev[instrument]]\<close> throws a TypeError when the key is missing; the object spread
  keeps the position of an existing key.\<close>

definition toggleDrumSequencerStep :: "string \<Rightarrow> nat \<Rightarrow> app \<Rightarrow> js_error + app" where
  "toggleDrumSequencerStep instrument index s =
    (case map_of (drumSequencer s) instrument of
       None \<Rightarrow> Inl TypeError
     | Some steps \<Rightarrow>
         Inr (s\<lparr>drumSequencer :=
                 map (\<lambda>(k, v). if k = instrument
                        then (k, js_assign steps index (\<not> js_index steps (int index)))
                        else (k, v))
                   (drumSequencer s)\<rparr>))"

subsection \<open>Events of the environment\<close>

text \<open>The audio clock and the wall clock advance by themselves.\<close>

definition elapse :: "real \<Rightarrow> app \<Rightarrow> app" where
  "elapse dt s = s\<lparr>audio := (audio s)\<lparr>currentTime := currentTime (audio s) + dt\<rparr>\<rparr>"

definition wait :: "real \<Rightarrow> app \<Rightarrow> app" where
  "wait ms s = s\<lparr>wall := wall s + ms\<rparr>"

text \<open>An interval calls its callback for the first time one delay after its registration,
  not before: the tick is due from then on.\<close>

definition due :: "app \<Rightarrow> bool" where
  "due s = (case interval s of None \<Rightarrow> False | Some t \<Rightarrow> set_at t + period_ms t \<le> wall s)"

definition drum_names :: "string list" where
  "drum_names = [''kick'', ''snare'', ''hihat'', ''tom'', ''clap'', ''perc'']"

text \<open>
  The states the component can be in: the initial render, the mount effect, and then any
  sequence of the events the control surface and the timers deliver. The control surface
  offers the step buttons of the existing indices of the six lanes only.
  \<open>handleSynthParamChange\<close> and \<open>handleDrumParamChange\<close> replace one field; here a
  parameter edit may replace the whole record by any value, which covers them. After an
  event that changes a dependency of the sequencer effect the effect runs again. A tick
  needs a registered interval; when it comes is left open here (\<open>due\<close> says when it may).
\<close>

inductive reachable :: "app \<Rightarrow> bool" where
  r_init: "reachable app0"
| r_mount:
    "reachable s \<Longrightarrow> \<not> initialized (audio s) \<Longrightarrow> reachable (sequencer_effect (mount s))"
| r_play: "reachable s \<Longrightarrow> reachable (sequencer_effect (togglePlay s))"
| r_tick:
    "reachable s \<Longrightarrow> interval s = Some t \<Longrightarrow> tick s = Inr s'
     \<Longrightarrow> reachable (sequencer_effect s')"
| r_timeout: "reachable s \<Longrightarrow> 0 < timeouts s \<Longrightarrow> reachable (duck_release s)"
| r_delay: "reachable s \<Longrightarrow> reachable (s\<lparr>delayEnabled := \<not> delayEnabled s\<rparr>)"
| r_reverb: "reachable s \<Longrightarrow> reachable (s\<lparr>reverbEnabled := \<not> reverbEnabled s\<rparr>)"
| r_compression:
    "reachable s
     \<Longrightarrow> reachable (sequencer_effect (s\<lparr>compressionEnabled := \<not> compressionEnabled s\<rparr>))"
| r_duckKick: "reachable s \<Longrightarrow> reachable (sequencer_effect (s\<lparr>duckKick := \<not> duckKick s\<rparr>))"
| r_synth_step:
    "reachable s \<Longrightarrow> index < length (synthSequencer s)
     \<Longrightarrow> reachable (sequencer_effect (toggleSynthSequencerStep index s))"
| r_drum_step:
    "reachable s \<Longrightarrow> instrument \<in> set drum_names
     \<Longrightarrow> map_of (drumSequencer s) instrument = Some steps \<Longrightarrow> index < length steps
     \<Longrightarrow> toggleDrumSequencerStep instrument index s = Inr s'
     \<Longrightarrow> reachable (sequencer_effect s')"
| r_synth_param: "reachable s \<Longrightarrow> reachable (updateDelayParams (s\<lparr>synthParams := sp\<rparr>))"
| r_drum_param:
    "reachable s
     \<Longrightarrow> reachable (if tempo dp = tempo (drumParams s) then s\<lparr>drumParams := dp\<rparr>
                    else sequencer_effect (s\<lparr>drumParams := dp\<rparr>))"
| r_elapse: "reachable s \<Longrightarrow> 0 \<le> dt \<Longrightarrow> reachable (elapse dt s)"
| r_wait: "reachable s \<Longrightarrow> 0 \<le> ms \<Longrightarrow> reachable (wait ms s)"

subsection \<open>Observations\<close>

text \<open>Only \<open>playSynthNote\<close> assigns \<open>frequency.value\<close> of an oscillator: these assignments
  are the melodic triggers, each with its oscillator and its frequency.\<close>

definition melodic_triggers :: "engine \<Rightarrow> (node \<times> real) list" where
  "melodic_triggers e =
     map (\<lambda>x. (fst (fst x), snd x)) (filter (\<lambda>x. snd (fst x) = POscFrequency) (assignments e))"

text \<open>The automation calls made between two states, and the durations, counted from the
  audio clock of the first state, of the exponential ramps among them.\<close>

definition new_autom :: "app \<Rightarrow> app \<Rightarrow> ((node \<times> param) \<times> event) list" where
  "new_autom s s' = drop (length (autom (audio s))) (autom (audio s'))"

definition new_events :: "app \<Rightarrow> app \<Rightarrow> node \<Rightarrow> param \<Rightarrow> event list" where
  "new_events s s' n p = map snd (filter (\<lambda>x. fst x = (n, p)) (new_autom s s'))"

text \<open>The decay field each case of \<open>playDrumSound\<close> reads.\<close>

definition decay_of :: "string \<Rightarrow> DrumParams \<Rightarrow> real" where
  "decay_of ty dp =
     (if ty = ''kick'' then kickDecay dp else if ty = ''snare'' then snareDecay dp
      else if ty = ''hihat'' then hiHatDecay dp else if ty = ''tom'' then tomDecay dp
      else if ty = ''clap'' then clapDecay dp else percDecay dp)"

fun all_positive :: "real list \<Rightarrow> bool" where
  "all_positive [] = True"
| "all_positive (d # ds) = (0 < d \<and> all_positive ds)"

fun exp_ramp_end :: "event \<Rightarrow> real list" where
  "exp_ramp_end (ExponentialRampToValueAtTime v T) = [T]"
| "exp_ramp_end _ = []"

definition exp_ramp_durations :: "app \<Rightarrow> app \<Rightarrow> real list" where
  "exp_ramp_durations s s' =
     map (\<lambda>T. T - currentTime (audio s)) (concat (map (exp_ramp_end \<circ> snd) (new_autom s s')))"

text \<open>
  The value of a parameter at a time, after the Web Audio API's rules for a timeline whose
  events are in time order: \<open>v0\<close> is the value and \<open>t0\<close> the time of the previous event.
  A set-value event takes effect at its time. A ramp runs from the previous event to its
  end time. A set-target event approaches its target exponentially from the value the
  parameter has at its start time, or jumps to the target when the time constant is 0,
  until the next event.
\<close>

fun event_time :: "event \<Rightarrow> real" where
  "event_time (SetValueAtTime v T) = T"
| "event_time (LinearRampToValueAtTime v T) = T"
| "event_time (ExponentialRampToValueAtTime v T) = T"
| "event_time (SetTargetAtTime v T tau) = T"

definition approach :: "real \<Rightarrow> real \<Rightarrow> real \<Rightarrow> real \<Rightarrow> real \<Rightarrow> real" where
  "approach v0 target T tau t =
     (if tau = 0 then target else target + (v0 - target) * exp (- (t - T) / tau))"

fun value_at :: "real \<Rightarrow> real \<Rightarrow> event list \<Rightarrow> real \<Rightarrow> real" where
  "value_at v0 t0 [] t = v0"
| "value_at v0 t0 (SetValueAtTime v T # es) t =
     (if t < T then v0 else value_at v T es t)"
| "value_at v0 t0 (LinearRampToValueAtTime v T # es) t =
     (if t < T then v0 + (v - v0) * ((t - t0) / (T - t0)) else value_at v T es t)"
| "value_at v0 t0 (ExponentialRampToValueAtTime v T # es) t =
     (if t < T then v0 * (v / v0) powr ((t - t0) / (T - t0)) else value_at v T es t)"
| "value_at v0 t0 (SetTargetAtTime target T tau # es) t =
     (if t < T then v0
      else case es of
        [] \<Rightarrow> approach v0 target T tau t
      | ev # _ \<Rightarrow>
          if t < event_time ev then approach v0 target T tau t
          else value_at (approach v0 target T tau (event_time ev)) (event_time ev) es t)"

subsection \<open>Auxiliary notions of the properties\<close>

text \<open>Toggling the flags to given values and routing a node, as a trigger does after the
  control surface has changed the flags.\<close>

definition reroute :: "bool \<Rightarrow> bool \<Rightarrow> bool \<Rightarrow> node \<Rightarrow> app \<Rightarrow> app" where
  "reroute d r c n s =
     connectToEffectsChain n (s\<lparr>delayEnabled := d, reverbEnabled := r, compressionEnabled := c\<rparr>)"

text \<open>The node that follows the source, the delay and the reverb in the chain of given
  flags; and the stages (delay, reverb) that given flags enable and the state's own flags
  do not.\<close>

definition after_reverb :: "bool \<Rightarrow> node" where
  "after_reverb c = (if c then Compressor else Destination)"

definition after_delay :: "bool \<Rightarrow> bool \<Rightarrow> node" where
  "after_delay r c = (if r then Reverb else after_reverb c)"

definition first_stage :: "bool \<Rightarrow> bool \<Rightarrow> bool \<Rightarrow> node" where
  "first_stage d r c = (if d then Delay else after_delay r c)"

definition only_between :: "bool \<Rightarrow> bool \<Rightarrow> app \<Rightarrow> node list" where
  "only_between d r s =
     (if d \<and> \<not> delayEnabled s then [Delay] else [])
     @ (if r \<and> \<not> reverbEnabled s then [Reverb] else [])"

text \<open>Signal flow: the nodes one connection after a set of nodes, and whether a node feeds
  the master bus through at most three connections. \<open>fx_nodes\<close> are the long-lived nodes of
  the effects routing.\<close>

definition hop :: "engine \<Rightarrow> node set \<Rightarrow> node set" where
  "hop e S = (\<Union>n\<in>S. outs e n)"

definition reaches_master :: "engine \<Rightarrow> node \<Rightarrow> bool" where
  "reaches_master e n = (Master \<in> hop e {n} \<union> hop e (hop e {n}) \<union> hop e (hop e (hop e {n})))"

definition fx_nodes :: "node list" where
  "fx_nodes = [Delay, DelayFeedback, Reverb, Compressor, DuckGain, Destination]"

text \<open>What a drum trigger may do to the graph between two states: it removes nothing, and
  every connection it adds leaves a newly allocated node or the kick gain and enters the
  master bus, the kick gain or a newly allocated node. \<open>all_reach\<close>: something was
  allocated, and every newly allocated node feeds the master bus.\<close>

definition added_ok :: "app \<Rightarrow> app \<Rightarrow> bool" where
  "added_ok s s' =
    (set (edges (audio s)) \<subseteq> set (edges (audio s'))
     \<and> set (edges (audio s')) - set (edges (audio s))
        \<subseteq> (insert KickGain (Fresh ` {next_id (audio s) ..< next_id (audio s')}))
        \<times> ({Master, KickGain} \<union> Fresh ` {next_id (audio s) ..< next_id (audio s')}))"

definition all_reach :: "app \<Rightarrow> app \<Rightarrow> bool" where
  "all_reach s s' =
     (next_id (audio s) < next_id (audio s')
      \<and> list_all (\<lambda>i. reaches_master (audio s') (Fresh i)) [next_id (audio s) ..< next_id (audio s')])"

text \<open>Replacing the steps of one lane of the drum pattern, as \<open>toggleDrumSequencerStep\<close>
  does with the object spread.\<close>

definition put_lane :: "string \<Rightarrow> bool list \<Rightarrow> (string \<times> bool list) list \<Rightarrow> (string \<times> bool list) list" where
  "put_lane a x ds = map (\<lambda>(k, v). if k = a then (k, x) else (k, v)) ds"

text \<open>Two states that differ in the audio side only.\<close>

definition same_react :: "app \<Rightarrow> app \<Rightarrow> bool" where
  "same_react s s' = (s' = s\<lparr>audio := audio s'\<rparr>)"

text \<open>Invariants: the duck gain has no connection, the compressor is connected to nothing
  but the output; the step cursor is in range, the melodic pattern and the six lanes have
  16 steps, and the lanes are the six instruments.\<close>

definition graph_ok :: "engine \<Rightarrow> bool" where
  "graph_ok e = (ins e DuckGain = {} \<and> outs e DuckGain = {} \<and> outs e Compressor \<subseteq> {Destination})"

definition lanes_ok :: "app \<Rightarrow> bool" where
  "lanes_ok s =
     (0 \<le> currentStep s \<and> currentStep s < 16 \<and> length (synthSequencer s) = 16
      \<and> map fst (drumSequencer s) = drum_names
      \<and> list_all (\<lambda>l. length (snd l) = 16) (drumSequencer s))"

definition inv :: "app \<Rightarrow> bool" where
  "inv s = (lanes_ok s \<and> graph_ok (audio s))"

text \<open>The state after the voice triggers of a tick, before the duck envelope and the
  advance of the cursor; and whether the kick lane is active at the cursor.\<close>

definition after_voices :: "app \<Rightarrow> app" where
  "after_voices s =
     s\<lparr>audio := audio
        (play_drums (currentStep s) (drumSequencer s)
           (if js_index (synthSequencer s) (currentStep s)
            then playSynthNote (300 + (real_of_int (currentStep s) * 20)) (stale s)
            else stale s))\<rparr>"

definition kick_active :: "app \<Rightarrow> bool" where
  "kick_active s =
     (case map_of (drumSequencer s) ''kick'' of
        None \<Rightarrow> False | Some steps \<Rightarrow> js_index steps (currentStep s))"

text \<open>The registered interval agrees with the transport: none while stopped, and while
  running one with the delay \<open>stepTime\<close> of the current tempo, registered in the past.\<close>

definition timer_ok :: "app \<Rightarrow> bool" where
  "timer_ok s =
     (case interval s of
        None \<Rightarrow> \<not> isPlaying s
      | Some t \<Rightarrow> isPlaying s \<and> period_ms t = stepTime (tempo (drumParams s))
                 \<and> set_at t \<le> wall s)"

text \<open>A run at tempo 120: the transport is started at wall-clock time 0 with melodic step 0
  active (\<open>playing_state\<close>); and a run in which, after the start at time 0, melodic step 5
  is toggled at 100 ms and the clock then reaches 200 ms.\<close>

definition playing_state :: app where
  "playing_state =
     sequencer_effect (togglePlay (sequencer_effect (toggleSynthSequencerStep 0 (mount app0))))"

definition started :: app where
  "started = sequencer_effect (togglePlay (mount app0))"

definition edited_at_100 :: app where
  "edited_at_100 = sequencer_effect (toggleSynthSequencerStep 5 (wait 100 started))"

text \<open>A state with compression and duck-on-kick enabled and the kick lane active at step 0.\<close>

definition ducking_state :: app where
  "ducking_state = (mount app0)\<lparr>compressionEnabled := True, duckKick := True,
     drumSequencer := put_lane ''kick'' (True # replicate 15 False) (drumSequencer app0)\<rparr>"

section \<open>Properties\<close>

subsection \<open>The primitive operations on each observation\<close>

lemma initialized_prims [simp]:
  "initialized (connect a b e) = initialized e"
  "initialized (disconnect a e) = initialized e"
  "initialized (create k e) = initialized e"
  "initialized (set_type n k e) = initialized e"
  "initialized (set_value n p v e) = initialized e"
  "initialized (schedule n p ev e) = initialized e"
  "initialized (start n t e) = initialized e"
  "initialized (stop n t e) = initialized e"
  by (simp_all add: connect_def disconnect_def create_def set_type_def set_value_def
      schedule_def start_def stop_def split: node.splits)

lemma currentTime_prims [simp]:
  "currentTime (connect a b e) = currentTime e"
  "currentTime (disconnect a e) = currentTime e"
  "currentTime (create k e) = currentTime e"
  "currentTime (set_type n k e) = currentTime e"
  "currentTime (set_value n p v e) = currentTime e"
  "currentTime (schedule n p ev e) = currentTime e"
  "currentTime (start n t e) = currentTime e"
  "currentTime (stop n t e) = currentTime e"
  by (simp_all add: connect_def disconnect_def create_def set_type_def set_value_def
      schedule_def start_def stop_def split: node.splits)

lemma next_id_prims [simp]:
  "next_id (connect a b e) = next_id e"
  "next_id (disconnect a e) = next_id e"
  "next_id (create k e) = Suc (next_id e)"
  "next_id (set_type n k e) = next_id e"
  "next_id (set_value n p v e) = next_id e"
  "next_id (schedule n p ev e) = next_id e"
  "next_id (start n t e) = next_id e"
  "next_id (stop n t e) = next_id e"
  by (simp_all add: connect_def disconnect_def create_def set_type_def set_value_def
      schedule_def start_def stop_def split: node.splits)

lemma autom_prims [simp]:
  "autom (connect a b e) = autom e"
  "autom (disconnect a e) = autom e"
  "autom (create k e) = autom e"
  "autom (set_type n k e) = autom e"
  "autom (set_value n p v e) = autom e"
  "autom (schedule n p ev e) = autom e @ [((n, p), ev)]"
  "autom (start n t e) = autom e"
  "autom (stop n t e) = autom e"
  by (simp_all add: connect_def disconnect_def create_def set_type_def set_value_def
      schedule_def start_def stop_def split: node.splits)

lemma assignments_prims [simp]:
  "assignments (connect a b e) = assignments e"
  "assignments (disconnect a e) = assignments e"
  "assignments (create k e) = assignments e"
  "assignments (set_type n k e) = assignments e"
  "assignments (set_value n p v e) = assignments e @ [((n, p), v)]"
  "assignments (schedule n p ev e) = assignments e"
  "assignments (start n t e) = assignments e"
  "assignments (stop n t e) = assignments e"
  by (simp_all add: connect_def disconnect_def create_def set_type_def set_value_def
      schedule_def start_def stop_def split: node.splits)

lemma stops_prims [simp]:
  "stops (connect a b e) = stops e"
  "stops (disconnect a e) = stops e"
  "stops (create k e) = stops e"
  "stops (set_type n k e) = stops e"
  "stops (set_value n p v e) = stops e"
  "stops (schedule n p ev e) = stops e"
  "stops (start n t e) = stops e"
  "stops (stop n t e) = stops e @ [(n, t)]"
  by (simp_all add: connect_def disconnect_def create_def set_type_def set_value_def
      schedule_def start_def stop_def split: node.splits)

lemma kinds_prims [simp]:
  "kinds (connect a b e) = kinds e"
  "kinds (disconnect a e) = kinds e"
  "kinds (create k e) = (kinds e)(next_id e \<mapsto> k)"
  "kinds (set_type (Fresh i) k e) = (kinds e)(i \<mapsto> k)"
  "kinds (set_value n p v e) = kinds e"
  "kinds (schedule n p ev e) = kinds e"
  "kinds (start n t e) = kinds e"
  "kinds (stop n t e) = kinds e"
  by (simp_all add: connect_def disconnect_def create_def set_type_def set_value_def
      schedule_def start_def stop_def)

lemma edges_prims [simp]:
  "set (edges (connect a b e)) = insert (a, b) (set (edges e))"
  "set (edges (disconnect a e)) = {c \<in> set (edges e). fst c \<noteq> a}"
  "edges (create k e) = edges e"
  "edges (set_type n k e) = edges e"
  "edges (set_value n p v e) = edges e"
  "edges (schedule n p ev e) = edges e"
  "edges (start n t e) = edges e"
  "edges (stop n t e) = edges e"
  by (simp_all add: connect_def disconnect_def create_def set_type_def set_value_def
      schedule_def start_def stop_def split: node.splits)

lemma outs_eq: "outs e n = {b. (n, b) \<in> set (edges e)}"
  by (force simp: outs_def)

lemma ins_eq: "ins e n = {a. (a, n) \<in> set (edges e)}"
  by (force simp: ins_def)

lemma outs_prims [simp]:
  "outs (connect a b e) n = (if n = a then insert b (outs e n) else outs e n)"
  "outs (disconnect a e) n = (if n = a then {} else outs e n)"
  "outs (create k e) n = outs e n"
  "outs (set_type m k e) n = outs e n"
  "outs (set_value m p v e) n = outs e n"
  "outs (schedule m p ev e) n = outs e n"
  "outs (start m t e) n = outs e n"
  "outs (stop m t e) n = outs e n"
  by (auto simp: outs_eq)

lemma ins_prims [simp]:
  "ins (connect a b e) n = (if n = b then insert a (ins e n) else ins e n)"
  "ins (disconnect a e) n = ins e n - {a}"
  "ins (create k e) n = ins e n"
  "ins (set_type m k e) n = ins e n"
  "ins (set_value m p v e) n = ins e n"
  "ins (schedule m p ev e) n = ins e n"
  "ins (start m t e) n = ins e n"
  "ins (stop m t e) n = ins e n"
  by (auto simp: ins_eq)

lemma outs_mount_engine:
  "outs (mount_engine engine0) n =
     (if n = Delay then {DelayFeedback, Reverb} else if n = DelayFeedback then {Delay}
      else if n = Reverb then {Compressor} else if n = Compressor then {Destination}
      else if n = Master then {Compressor} else {})"
  by (auto simp: mount_engine_def Let_def) (auto simp: outs_eq engine0_def)

lemma initialized_mount_engine [simp]: "initialized (mount_engine e)"
  by (simp add: mount_engine_def)

lemma audio_mount:
  "audio (mount s) =
     set_value DelayFeedback PGain (delayFeedback (synthParams s) / 100)
       (set_value Delay PDelayTime (delayTime (synthParams s) / 100 * 1.0)
          (mount_engine (audio s)))"
  by (simp add: mount_def updateDelayParams_def)

lemma flags_mount [simp]:
  "delayEnabled (mount s) = delayEnabled s" "reverbEnabled (mount s) = reverbEnabled s"
  "compressionEnabled (mount s) = compressionEnabled s"
  by (simp_all add: mount_def updateDelayParams_def)

subsection \<open>Routing\<close>

lemma chain_outs:
  assumes "initialized (audio s)"
    and "outs (audio s) Compressor \<subseteq> {Destination}"
  shows "map (outs (audio (connectToEffectsChain (Fresh k) s))) (Fresh k # stages_of s)
         = map (\<lambda>n. {n}) (stages_of s @ [Destination])"
  using assms
  by (cases "delayEnabled s"; cases "reverbEnabled s"; cases "compressionEnabled s")
     (auto simp: connectToEffectsChain_def stages_of_def spec_computeTopology_def)

text \<open>
  C1. For every combination of the effect flags, after \<open>connectToEffectsChain\<close> has routed a
  voice's filter output, the source and every enabled stage are connected to exactly one
  node, the next one of the chain source, delay (if enabled), reverb (if enabled),
  compressor (if enabled), hardware output; with no stage enabled the source is connected
  to the output alone. The chain is the function \<open>spec_computeTopology\<close> of the flags alone.
  The compressor is only ever connected to the output, which is the hypothesis on the
  state (it holds in every reachable state, \<open>reachable_inv\<close> below).
\<close>

theorem connectToEffectsChain_topology:
  assumes "initialized (audio s)"
    and "outs (audio s) Compressor \<subseteq> {Destination}"
  shows "map (outs (audio (connectToEffectsChain (Fresh k) s))) (Fresh k # stages_of s)
         = map (\<lambda>n. {n}) (stages_of s @ [Destination])"
  using assms by (rule chain_outs)

theorem connectToEffectsChain_topology_witness:
  "initialized (audio (mount (app0\<lparr>delayEnabled := True, compressionEnabled := True\<rparr>)))
   \<and> outs (audio (mount (app0\<lparr>delayEnabled := True, compressionEnabled := True\<rparr>))) Compressor
       \<subseteq> {Destination}
   \<and> map (outs (audio (connectToEffectsChain (Fresh 0)
              (mount (app0\<lparr>delayEnabled := True, compressionEnabled := True\<rparr>)))))
        [Fresh 0, Delay, Compressor]
     = [{Delay}, {Compressor}, {Destination}]"
proof -
  let ?s = "mount (app0\<lparr>delayEnabled := True, compressionEnabled := True\<rparr>)"
  have i: "initialized (audio ?s)"
    by (simp add: audio_mount)
  have c: "outs (audio ?s) Compressor \<subseteq> {Destination}"
    by (simp add: audio_mount app0_def outs_mount_engine)
  have st: "stages_of ?s = [Delay, Compressor]"
    by (simp add: stages_of_def spec_computeTopology_def app0_def)
  from connectToEffectsChain_topology [OF i c, of 0] i c show ?thesis
    by (simp add: st)
qed

subsection \<open>What a trigger schedules\<close>

lemma chain_frame [simp]:
  "autom (audio (connectToEffectsChain n s)) = autom (audio s)"
  "assignments (audio (connectToEffectsChain n s)) = assignments (audio s)"
  "currentTime (audio (connectToEffectsChain n s)) = currentTime (audio s)"
  "next_id (audio (connectToEffectsChain n s)) = next_id (audio s)"
  "stops (audio (connectToEffectsChain n s)) = stops (audio s)"
  "kinds (audio (connectToEffectsChain n s)) = kinds (audio s)"
  "initialized (audio (connectToEffectsChain n s)) = initialized (audio s)"
  by (simp_all add: connectToEffectsChain_def Let_def)

lemma autom_playSynthNote:
  "initialized (audio s) \<Longrightarrow>
   autom (audio (playSynthNote f s)) = autom (audio s) @
     [((Fresh (Suc (next_id (audio s))), PGain), SetValueAtTime 0 (currentTime (audio s))),
      ((Fresh (Suc (next_id (audio s))), PGain),
         LinearRampToValueAtTime 1 (currentTime (audio s) + attack (synthParams s) / 100)),
      ((Fresh (Suc (next_id (audio s))), PGain),
         LinearRampToValueAtTime (sustain (synthParams s) / 100)
           (currentTime (audio s) + attack (synthParams s) / 100 + decay (synthParams s) / 100)),
      ((Fresh (Suc (Suc (next_id (audio s)))), PFilterFrequency),
         SetValueAtTime 20000 (currentTime (audio s))),
      ((Fresh (Suc (Suc (next_id (audio s)))), PFilterFrequency),
         LinearRampToValueAtTime (cutoff (synthParams s) * 200) (currentTime (audio s) + 0.1)),
      ((Fresh (Suc (next_id (audio s))), PGain),
         SetTargetAtTime 0
           (currentTime (audio s) + attack (synthParams s) / 100 + decay (synthParams s) / 100)
           (release (synthParams s) / 100 / 10))]"
  by (simp add: playSynthNote_def Let_def fresh_def)

lemma autom_kick:
  "autom (audio (kick_case s)) = autom (audio s) @
     [((Fresh (next_id (audio s)), POscFrequency),
         SetValueAtTime (150 + kickTone (drumParams s) * 5) (currentTime (audio s))),
      ((Fresh (Suc (next_id (audio s))), PGain), SetValueAtTime 1 (currentTime (audio s))),
      ((Fresh (next_id (audio s)), POscFrequency),
         ExponentialRampToValueAtTime 20
           (currentTime (audio s) + kickDecay (drumParams s) / 1000)),
      ((Fresh (Suc (next_id (audio s))), PGain),
         ExponentialRampToValueAtTime 0.001
           (currentTime (audio s) + kickDecay (drumParams s) / 1000))]"
  by (simp add: kick_case_def Let_def fresh_def)

lemma stops_kick:
  "stops (audio (kick_case s)) = stops (audio s) @
     [(Fresh (next_id (audio s)), currentTime (audio s) + kickDecay (drumParams s) / 1000 + 0.05)]"
  by (simp add: kick_case_def Let_def fresh_def)

lemma kinds_kick:
  "kinds (audio (kick_case s)) (next_id (audio s)) = Some (Oscillator Sine)"
  by (simp add: kick_case_def Let_def fresh_def)

lemma durations_cases:
  "exp_ramp_durations s (kick_case s)
     = [kickDecay (drumParams s) / 1000, kickDecay (drumParams s) / 1000]"
  "exp_ramp_durations s (snare_case s)
     = [snareDecay (drumParams s) / 1000, snareDecay (drumParams s) / 1000]"
  "exp_ramp_durations s (hihat_case s) = [hiHatDecay (drumParams s) / 1000]"
  "exp_ramp_durations s (tom_case s) = [tomDecay (drumParams s) / 1000]"
  "exp_ramp_durations s (clap_case s) = [clapDecay (drumParams s) / 1000]"
  "exp_ramp_durations s (perc_case s) = [percDecay (drumParams s) / 1000]"
  by (simp_all add: exp_ramp_durations_def new_autom_def kick_case_def snare_case_def
      hihat_case_def tom_case_def clap_case_def perc_case_def Let_def)

lemma mount_engine_frame [simp]:
  "next_id (mount_engine e) = next_id e" "currentTime (mount_engine e) = currentTime e"
  "stops (mount_engine e) = stops e" "kinds (mount_engine e) = kinds e"
  by (simp_all add: mount_engine_def)

lemma mount_app0 [simp]:
  "initialized (audio (mount app0))" "next_id (audio (mount app0)) = 0"
  "currentTime (audio (mount app0)) = 0" "stops (audio (mount app0)) = []"
  "synthParams (mount app0) = defaultSynthParams" "drumParams (mount app0) = defaultDrumParams"
  by (simp_all add: audio_mount) (simp_all add: app0_def engine0_def mount_def updateDelayParams_def)

text \<open>
  C2. For every \<open>SynthParams\<close>, \<open>playSynthNote\<close> schedules on the gain of the voice, in this
  order: value 0 at the trigger time \<open>t0\<close>, a linear ramp to 1 ending at \<open>t0 + attack/100\<close>,
  a linear ramp to \<open>sustain/100\<close> ending at \<open>t0 + attack/100 + decay/100\<close>, and an
  exponential approach to 0 from that instant with time constant \<open>release/1000\<close>. With
  attack 20, decay 40, sustain 70 and release 30 these are 0.2 s, 0.4 s, 0.7 and 0.03, and
  the gain at \<open>t0 + 0.6\<close> is 0.7.
\<close>

theorem playSynthNote_gain_envelope:
  assumes "initialized (audio s)"
  shows "new_events s (playSynthNote f s) (Fresh (Suc (next_id (audio s)))) PGain
        = [SetValueAtTime 0 (currentTime (audio s)),
           LinearRampToValueAtTime 1 (currentTime (audio s) + attack (synthParams s) / 100),
           LinearRampToValueAtTime (sustain (synthParams s) / 100)
             (currentTime (audio s) + attack (synthParams s) / 100 + decay (synthParams s) / 100),
           SetTargetAtTime 0
             (currentTime (audio s) + attack (synthParams s) / 100 + decay (synthParams s) / 100)
             (release (synthParams s) / 1000)]
     \<and> new_events
          (s\<lparr>synthParams := (synthParams s)
               \<lparr>attack := 20, decay := 40, sustain := 70, release := 30\<rparr>\<rparr>)
          (playSynthNote f
             (s\<lparr>synthParams := (synthParams s)
                  \<lparr>attack := 20, decay := 40, sustain := 70, release := 30\<rparr>\<rparr>))
          (Fresh (Suc (next_id (audio s)))) PGain
        = [SetValueAtTime 0 (currentTime (audio s)),
           LinearRampToValueAtTime 1 (currentTime (audio s) + 0.2),
           LinearRampToValueAtTime 0.7 (currentTime (audio s) + 0.2 + 0.4),
           SetTargetAtTime 0 (currentTime (audio s) + 0.2 + 0.4) 0.03]
     \<and> value_at 0 (currentTime (audio s))
          (new_events
             (s\<lparr>synthParams := (synthParams s)
                  \<lparr>attack := 20, decay := 40, sustain := 70, release := 30\<rparr>\<rparr>)
             (playSynthNote f
                (s\<lparr>synthParams := (synthParams s)
                     \<lparr>attack := 20, decay := 40, sustain := 70, release := 30\<rparr>\<rparr>))
             (Fresh (Suc (next_id (audio s)))) PGain)
          (currentTime (audio s) + 0.6) = 0.7"
  using assms
  by (simp add: new_events_def new_autom_def autom_playSynthNote approach_def)

theorem playSynthNote_gain_envelope_witness:
  "initialized (audio (mount app0))
   \<and> new_events (mount app0) (playSynthNote 300 (mount app0)) (Fresh 1) PGain
       = [SetValueAtTime 0 0, LinearRampToValueAtTime 1 0.2, LinearRampToValueAtTime 0.7 0.6,
          SetTargetAtTime 0 0.6 0.03]"
  using playSynthNote_gain_envelope [of "mount app0" 300]
  by (simp add: defaultSynthParams_def)

text \<open>
  C8. For every \<open>SynthParams\<close>, \<open>playSynthNote\<close> schedules on the cutoff of the voice's
  lowpass filter the value 20000 Hz at the trigger time \<open>t0\<close> and a linear ramp to
  \<open>cutoff * 200\<close> Hz ending at \<open>t0 + 0.1\<close>, whatever attack, decay, sustain and release are;
  the cutoff at \<open>t0 + 0.1\<close> is \<open>cutoff * 200\<close>, 10000 Hz for cutoff 50.
\<close>

theorem playSynthNote_filter_sweep:
  assumes "initialized (audio s)"
  shows "new_events
           (s\<lparr>synthParams := (synthParams s)
                \<lparr>attack := a, decay := d, sustain := su, release := r\<rparr>\<rparr>)
           (playSynthNote f
              (s\<lparr>synthParams := (synthParams s)
                   \<lparr>attack := a, decay := d, sustain := su, release := r\<rparr>\<rparr>))
           (Fresh (Suc (Suc (next_id (audio s))))) PFilterFrequency
        = [SetValueAtTime 20000 (currentTime (audio s)),
           LinearRampToValueAtTime (cutoff (synthParams s) * 200) (currentTime (audio s) + 0.1)]
    \<and> new_events s (playSynthNote f s) (Fresh (Suc (Suc (next_id (audio s))))) PFilterFrequency
        = [SetValueAtTime 20000 (currentTime (audio s)),
           LinearRampToValueAtTime (cutoff (synthParams s) * 200) (currentTime (audio s) + 0.1)]
    \<and> value_at 20000 (currentTime (audio s))
         (new_events s (playSynthNote f s) (Fresh (Suc (Suc (next_id (audio s)))))
            PFilterFrequency)
         (currentTime (audio s) + 0.1) = cutoff (synthParams s) * 200"
  using assms
  by (simp add: new_events_def new_autom_def autom_playSynthNote)

theorem playSynthNote_filter_sweep_witness:
  "initialized (audio (mount app0))
   \<and> new_events (mount app0) (playSynthNote 300 (mount app0)) (Fresh 2) PFilterFrequency
       = [SetValueAtTime 20000 0, LinearRampToValueAtTime 10000 0.1]
   \<and> value_at 20000 0
        (new_events (mount app0) (playSynthNote 300 (mount app0)) (Fresh 2) PFilterFrequency) 0.1
       = 10000"
  using playSynthNote_filter_sweep [of "mount app0" 20 40 70 30 300]
  by (simp add: defaultSynthParams_def numeral_2_eq_2)

text \<open>
  C7. For every \<open>DrumParams\<close>, the kick case allocates a sine oscillator and schedules its
  frequency at \<open>150 + kickTone * 5\<close> Hz at the trigger time with an exponential ramp to 20 Hz
  ending \<open>kickDecay/1000\<close> seconds later, the gain of its gain node at 1 with an
  exponential ramp to 0.001 ending at the same time, and the stop of the oscillator 0.05
  seconds after that. With \<open>kickTone = 50\<close> the start frequency is 400 Hz.
\<close>

theorem kick_schedule:
  assumes "initialized (audio s)"
  shows "kinds (audio (playDrumSound ''kick'' s)) (next_id (audio s)) = Some (Oscillator Sine)
    \<and> new_events s (playDrumSound ''kick'' s) (Fresh (next_id (audio s))) POscFrequency
        = [SetValueAtTime (150 + kickTone (drumParams s) * 5) (currentTime (audio s)),
           ExponentialRampToValueAtTime 20
             (currentTime (audio s) + kickDecay (drumParams s) / 1000)]
    \<and> new_events s (playDrumSound ''kick'' s) (Fresh (Suc (next_id (audio s)))) PGain
        = [SetValueAtTime 1 (currentTime (audio s)),
           ExponentialRampToValueAtTime 0.001
             (currentTime (audio s) + kickDecay (drumParams s) / 1000)]
    \<and> stops (audio (playDrumSound ''kick'' s))
        = stops (audio s) @
          [(Fresh (next_id (audio s)),
            currentTime (audio s) + kickDecay (drumParams s) / 1000 + 0.05)]"
  using assms
  by (simp add: playDrumSound_def new_events_def new_autom_def autom_kick stops_kick kinds_kick)

theorem kick_schedule_witness:
  "initialized (audio (mount app0))
   \<and> new_events (mount app0) (playDrumSound ''kick'' (mount app0)) (Fresh 0) POscFrequency
       = [SetValueAtTime 400 0, ExponentialRampToValueAtTime 20 0.2]
   \<and> new_events (mount app0) (playDrumSound ''kick'' (mount app0)) (Fresh 1) PGain
       = [SetValueAtTime 1 0, ExponentialRampToValueAtTime 0.001 0.2]
   \<and> stops (audio (playDrumSound ''kick'' (mount app0))) = [(Fresh 0, 0.25)]"
  using kick_schedule [of "mount app0"]
  by (simp add: defaultDrumParams_def)

text \<open>
  C4, as the specification states it, fails: no drum case clamps a decay. With
  \<open>kickDecay = 0\<close> the two exponential ramps of the kick end at the trigger time itself, so
  their duration is not positive.
\<close>

theorem drum_ramp_not_clamped:
  "\<not> all_positive (exp_ramp_durations
        (mount (app0\<lparr>drumParams := defaultDrumParams\<lparr>kickDecay := 0\<rparr>\<rparr>))
        (playDrumSound ''kick''
           (mount (app0\<lparr>drumParams := defaultDrumParams\<lparr>kickDecay := 0\<rparr>\<rparr>))))"
  by (simp add: playDrumSound_def durations_cases audio_mount mount_def updateDelayParams_def)

text \<open>
  C4, amended. Every exponential ramp a drum trigger schedules ends exactly \<open>decay/1000\<close>
  seconds after the trigger time, for the decay field of its instrument as it is given:
  nothing is clamped, and the ramp time is positive exactly when that decay is positive.
\<close>

theorem drum_ramp_durations:
  assumes "initialized (audio s)" and "ty \<in> set drum_names"
  shows "set (exp_ramp_durations s (playDrumSound ty s)) = {decay_of ty (drumParams s) / 1000}
     \<and> all_positive (exp_ramp_durations s (playDrumSound ty s))
         = (0 < decay_of ty (drumParams s))"
  using assms
  by (auto simp: drum_names_def playDrumSound_def decay_of_def durations_cases)

theorem drum_ramp_durations_witness:
  "initialized (audio (mount app0)) \<and> ''tom'' \<in> set drum_names
   \<and> set (exp_ramp_durations (mount app0) (playDrumSound ''tom'' (mount app0))) = {0.3}
   \<and> all_positive (exp_ramp_durations (mount app0) (playDrumSound ''tom'' (mount app0)))"
  using drum_ramp_durations [of "mount app0" "''tom''"]
  by (simp add: defaultDrumParams_def decay_of_def drum_names_def)

subsection \<open>Drum triggers and the graph\<close>

lemma edges_cases:
  "set (edges (audio (kick_case s))) = set (edges (audio s)) \<union>
     {(Fresh (next_id (audio s)), Fresh (Suc (next_id (audio s)))),
      (Fresh (Suc (next_id (audio s))), KickGain), (KickGain, Master)}"
  "set (edges (audio (snare_case s))) = set (edges (audio s)) \<union>
     {(Fresh (next_id (audio s)), Fresh (Suc (next_id (audio s)))),
      (Fresh (Suc (next_id (audio s))), Master),
      (Fresh (Suc (Suc (next_id (audio s)))), Fresh (Suc (Suc (Suc (next_id (audio s)))))),
      (Fresh (Suc (Suc (Suc (next_id (audio s))))), Master)}"
  "set (edges (audio (hihat_case s))) = set (edges (audio s)) \<union>
     {(Fresh (next_id (audio s)), Fresh (Suc (Suc (next_id (audio s))))),
      (Fresh (Suc (Suc (next_id (audio s)))), Fresh (Suc (next_id (audio s)))),
      (Fresh (Suc (next_id (audio s))), Master)}"
  "set (edges (audio (tom_case s))) = set (edges (audio s)) \<union>
     {(Fresh (next_id (audio s)), Fresh (Suc (next_id (audio s)))),
      (Fresh (Suc (next_id (audio s))), Master)}"
  "set (edges (audio (clap_case s))) = set (edges (audio s)) \<union>
     {(Fresh (next_id (audio s)), Fresh (Suc (next_id (audio s)))),
      (Fresh (Suc (next_id (audio s))), Master)}"
  "set (edges (audio (perc_case s))) = set (edges (audio s)) \<union>
     {(Fresh (next_id (audio s)), Fresh (Suc (next_id (audio s)))),
      (Fresh (Suc (next_id (audio s))), Master)}"
  by (auto simp: kick_case_def snare_case_def
      hihat_case_def tom_case_def clap_case_def perc_case_def Let_def fresh_def)

lemma next_id_cases:
  "next_id (audio (kick_case s)) = Suc (Suc (next_id (audio s)))"
  "next_id (audio (snare_case s)) = Suc (Suc (Suc (Suc (next_id (audio s)))))"
  "next_id (audio (hihat_case s)) = Suc (Suc (Suc (next_id (audio s))))"
  "next_id (audio (tom_case s)) = Suc (Suc (next_id (audio s)))"
  "next_id (audio (clap_case s)) = Suc (Suc (next_id (audio s)))"
  "next_id (audio (perc_case s)) = Suc (Suc (next_id (audio s)))"
  by (simp_all add: kick_case_def snare_case_def
      hihat_case_def tom_case_def clap_case_def perc_case_def Let_def fresh_def)

lemma added_ok_refl: "added_ok s s"
  by (simp add: added_ok_def)

lemma added_ok_kick: "added_ok s (kick_case s)"
  unfolding added_ok_def edges_cases next_id_cases by auto

lemma added_ok_snare: "added_ok s (snare_case s)"
  unfolding added_ok_def edges_cases next_id_cases by auto

lemma added_ok_hihat: "added_ok s (hihat_case s)"
  unfolding added_ok_def edges_cases next_id_cases by auto

lemma added_ok_tom: "added_ok s (tom_case s)"
  unfolding added_ok_def edges_cases next_id_cases by auto

lemma added_ok_clap: "added_ok s (clap_case s)"
  unfolding added_ok_def edges_cases next_id_cases by auto

lemma added_ok_perc: "added_ok s (perc_case s)"
  unfolding added_ok_def edges_cases next_id_cases by auto

lemma added_ok_playDrumSound: "added_ok s (playDrumSound ty s)"
  unfolding playDrumSound_def
  by (simp add: added_ok_refl added_ok_kick added_ok_snare added_ok_hihat added_ok_tom
      added_ok_clap added_ok_perc)

lemma upt_Suc_left: "[n ..< Suc (Suc n)] = [n, Suc n]"
  "[n ..< Suc (Suc (Suc n))] = [n, Suc n, Suc (Suc n)]"
  "[n ..< Suc (Suc (Suc (Suc n)))] = [n, Suc n, Suc (Suc n), Suc (Suc (Suc n))]"
  by (simp_all add: upt_rec)

lemma hop_single [simp]: "hop e {n} = outs e n"
  by (simp add: hop_def)

lemma hop_mono: "a \<in> S \<Longrightarrow> b \<in> outs e a \<Longrightarrow> b \<in> hop e S"
  by (auto simp: hop_def)

lemma reach1: "Master \<in> outs e n \<Longrightarrow> reaches_master e n"
  by (simp add: reaches_master_def)

lemma reach2: "m \<in> outs e n \<Longrightarrow> Master \<in> outs e m \<Longrightarrow> reaches_master e n"
  by (auto simp: reaches_master_def hop_def)

lemma reach3: "m \<in> outs e n \<Longrightarrow> k \<in> outs e m \<Longrightarrow> Master \<in> outs e k \<Longrightarrow> reaches_master e n"
  by (auto simp: reaches_master_def hop_def)

lemma all_reach_kick: "all_reach s (kick_case s)"
proof -
  let ?e = "audio (kick_case s)" and ?n = "next_id (audio s)"
  have a: "Fresh (Suc ?n) \<in> outs ?e (Fresh ?n)" "KickGain \<in> outs ?e (Fresh (Suc ?n))"
    "Master \<in> outs ?e KickGain"
    by (simp_all add: outs_eq edges_cases)
  show ?thesis
    unfolding all_reach_def next_id_cases upt_Suc_left
    using reach3 [OF a] reach2 [OF a(2,3)] by simp
qed

lemma all_reach_snare: "all_reach s (snare_case s)"
proof -
  let ?e = "audio (snare_case s)" and ?n = "next_id (audio s)"
  have a: "Fresh (Suc ?n) \<in> outs ?e (Fresh ?n)" "Master \<in> outs ?e (Fresh (Suc ?n))"
    and b: "Fresh (Suc (Suc (Suc ?n))) \<in> outs ?e (Fresh (Suc (Suc ?n)))"
      "Master \<in> outs ?e (Fresh (Suc (Suc (Suc ?n))))"
    by (simp_all add: outs_eq edges_cases)
  show ?thesis
    unfolding all_reach_def next_id_cases upt_Suc_left
    using reach2 [OF a] reach1 [OF a(2)] reach2 [OF b] reach1 [OF b(2)] by simp
qed

lemma all_reach_hihat: "all_reach s (hihat_case s)"
proof -
  let ?e = "audio (hihat_case s)" and ?n = "next_id (audio s)"
  have a: "Fresh (Suc (Suc ?n)) \<in> outs ?e (Fresh ?n)"
    "Fresh (Suc ?n) \<in> outs ?e (Fresh (Suc (Suc ?n)))" "Master \<in> outs ?e (Fresh (Suc ?n))"
    by (simp_all add: outs_eq edges_cases)
  show ?thesis
    unfolding all_reach_def next_id_cases upt_Suc_left
    using reach3 [OF a] reach2 [OF a(2,3)] reach1 [OF a(3)] by simp
qed

lemma all_reach_tom: "all_reach s (tom_case s)"
proof -
  let ?e = "audio (tom_case s)" and ?n = "next_id (audio s)"
  have a: "Fresh (Suc ?n) \<in> outs ?e (Fresh ?n)" "Master \<in> outs ?e (Fresh (Suc ?n))"
    by (simp_all add: outs_eq edges_cases)
  show ?thesis
    unfolding all_reach_def next_id_cases upt_Suc_left
    using reach2 [OF a] reach1 [OF a(2)] by simp
qed

lemma all_reach_clap: "all_reach s (clap_case s)"
proof -
  let ?e = "audio (clap_case s)" and ?n = "next_id (audio s)"
  have a: "Fresh (Suc ?n) \<in> outs ?e (Fresh ?n)" "Master \<in> outs ?e (Fresh (Suc ?n))"
    by (simp_all add: outs_eq edges_cases)
  show ?thesis
    unfolding all_reach_def next_id_cases upt_Suc_left
    using reach2 [OF a] reach1 [OF a(2)] by simp
qed

lemma all_reach_perc: "all_reach s (perc_case s)"
proof -
  let ?e = "audio (perc_case s)" and ?n = "next_id (audio s)"
  have a: "Fresh (Suc ?n) \<in> outs ?e (Fresh ?n)" "Master \<in> outs ?e (Fresh (Suc ?n))"
    by (simp_all add: outs_eq edges_cases)
  show ?thesis
    unfolding all_reach_def next_id_cases upt_Suc_left
    using reach2 [OF a] reach1 [OF a(2)] by simp
qed

lemma all_reach_playDrumSound:
  "initialized (audio s) \<Longrightarrow> ty \<in> set drum_names \<Longrightarrow> all_reach s (playDrumSound ty s)"
  unfolding playDrumSound_def drum_names_def
  by (auto simp: all_reach_kick all_reach_snare all_reach_hihat all_reach_tom
      all_reach_clap all_reach_perc)

lemma fx_frame:
  assumes "added_ok s s'"
  shows "map (outs (audio s')) fx_nodes = map (outs (audio s)) fx_nodes"
    and "map (ins (audio s')) fx_nodes = map (ins (audio s)) fx_nodes"
  using assms unfolding added_ok_def fx_nodes_def outs_eq ins_eq
  by auto

lemma outs_mount_app0:
  "outs (audio (mount app0)) n =
     (if n = Delay then {DelayFeedback, Reverb} else if n = DelayFeedback then {Delay}
      else if n = Reverb then {Compressor} else if n = Compressor then {Destination}
      else if n = Master then {Compressor} else {})"
  by (simp add: audio_mount app0_def outs_mount_engine)

text \<open>
  C9. Each of the six drum triggers removes no connection and adds connections only from
  its newly allocated nodes and the kick gain to the master bus, the kick gain and its
  newly allocated nodes: none into the delay, the reverb, the compressor, the output or
  the nodes of a melodic voice. The connections into and out of the nodes of the effects
  routing are unchanged, and every node the trigger allocates feeds the master bus,
  directly or through its gain stages.
\<close>

theorem drums_bypass_effects:
  assumes "initialized (audio s)" and "ty \<in> set drum_names"
  shows "set (edges (audio s)) \<subseteq> set (edges (audio (playDrumSound ty s)))
    \<and> set (edges (audio (playDrumSound ty s))) - set (edges (audio s))
        \<subseteq> (insert KickGain
             (Fresh ` {next_id (audio s) ..< next_id (audio (playDrumSound ty s))}))
          \<times> ({Master, KickGain}
             \<union> Fresh ` {next_id (audio s) ..< next_id (audio (playDrumSound ty s))})
    \<and> map (outs (audio (playDrumSound ty s))) fx_nodes = map (outs (audio s)) fx_nodes
    \<and> map (ins (audio (playDrumSound ty s))) fx_nodes = map (ins (audio s)) fx_nodes
    \<and> next_id (audio s) < next_id (audio (playDrumSound ty s))
    \<and> list_all (\<lambda>i. reaches_master (audio (playDrumSound ty s)) (Fresh i))
         [next_id (audio s) ..< next_id (audio (playDrumSound ty s))]"
  using added_ok_playDrumSound [where s = s and ty = ty]
    fx_frame [OF added_ok_playDrumSound [where s = s and ty = ty]]
    all_reach_playDrumSound [OF assms]
  unfolding added_ok_def all_reach_def by blast

theorem drums_bypass_effects_witness:
  "initialized (audio (mount app0)) \<and> ''kick'' \<in> set drum_names
   \<and> map (outs (audio (playDrumSound ''kick'' (mount app0)))) fx_nodes
       = [{DelayFeedback, Reverb}, {Delay}, {Compressor}, {Destination}, {}, {}]
   \<and> reaches_master (audio (playDrumSound ''kick'' (mount app0))) (Fresh 0)"
proof -
  have n: "next_id (audio (playDrumSound ''kick'' (mount app0))) = Suc (Suc 0)"
    by (simp add: playDrumSound_def next_id_cases)
  have d: "''kick'' \<in> set drum_names" by (simp add: drum_names_def)
  from drums_bypass_effects [of "mount app0" "''kick''"] d show ?thesis
    by (simp add: n outs_mount_app0 fx_nodes_def)
qed

subsection \<open>Pattern toggling\<close>

lemma map_of_put_lane:
  "map_of (put_lane a x ds) k = (if k = a \<and> map_of ds a \<noteq> None then Some x else map_of ds k)"
  by (induction ds) (auto simp: put_lane_def)

lemma fst_put_lane [simp]: "map fst (put_lane a x ds) = map fst ds"
  by (induction ds) (auto simp: put_lane_def)

lemma put_lane_twice [simp]: "put_lane a x (put_lane a y ds) = put_lane a x ds"
  by (induction ds) (auto simp: put_lane_def)

lemma put_lane_same:
  "distinct (map fst ds) \<Longrightarrow> map_of ds a = Some x \<Longrightarrow> put_lane a x ds = ds"
proof (induction ds)
  case Nil
  then show ?case by (simp add: put_lane_def)
next
  case (Cons c ds)
  obtain k v where c: "c = (k, v)" by (cases c)
  show ?case
  proof (cases "k = a")
    case True
    with Cons.prems c have "a \<notin> fst ` set ds" "v = x" by auto
    then have "put_lane a x ds = ds"
      by (induction ds) (auto simp: put_lane_def)
    with True c \<open>v = x\<close> show ?thesis by (simp add: put_lane_def)
  next
    case False
    with Cons c show ?thesis by (simp add: put_lane_def)
  qed
qed

lemma toggleDrum_eq:
  "map_of (drumSequencer s) a = Some steps \<Longrightarrow>
   toggleDrumSequencerStep a i s
     = Inr (s\<lparr>drumSequencer :=
              put_lane a (js_assign steps i (\<not> js_index steps (int i))) (drumSequencer s)\<rparr>)"
  by (simp add: toggleDrumSequencerStep_def put_lane_def)

lemma js_toggle:
  "i < length xs \<Longrightarrow> js_assign xs i (\<not> js_index xs (int i)) = xs[i := \<not> xs ! i]"
  by (simp add: js_assign_def js_index_def)

text \<open>
  C6. For a melodic pattern of 16 steps and a drum lane of 16 steps, and an index below 16:
  toggling the step flips that index and leaves every other index as it was (the result is
  the list updated at the index), the length stays 16, and toggling twice gives back the
  original state. For a drum lane the other lanes and the order of the lanes are untouched.
\<close>

theorem toggle_step:
  assumes "length (synthSequencer s) = 16" and "i < 16"
    and "distinct (map fst (drumSequencer s))"
    and "map_of (drumSequencer s) instrument = Some steps" and "length steps = 16"
  shows "synthSequencer (toggleSynthSequencerStep i s)
           = (synthSequencer s)[i := \<not> synthSequencer s ! i]
    \<and> length (synthSequencer (toggleSynthSequencerStep i s)) = 16
    \<and> toggleSynthSequencerStep i (toggleSynthSequencerStep i s) = s
    \<and> (\<exists>s1. toggleDrumSequencerStep instrument i s = Inr s1
          \<and> map_of (drumSequencer s1)
              = (map_of (drumSequencer s))(instrument \<mapsto> steps[i := \<not> steps ! i])
          \<and> length (steps[i := \<not> steps ! i]) = 16
          \<and> map fst (drumSequencer s1) = map fst (drumSequencer s)
          \<and> synthSequencer s1 = synthSequencer s
          \<and> toggleDrumSequencerStep instrument i s1 = Inr s)"
proof -
  have m: "synthSequencer (toggleSynthSequencerStep i s)
           = (synthSequencer s)[i := \<not> synthSequencer s ! i]"
    using assms(1,2) by (simp add: toggleSynthSequencerStep_def js_toggle)
  have t: "toggleSynthSequencerStep i (toggleSynthSequencerStep i s) = s"
    using assms(1,2) by (simp add: toggleSynthSequencerStep_def js_toggle)
  let ?p = "steps[i := \<not> steps ! i]"
  let ?s1 = "s\<lparr>drumSequencer := put_lane instrument ?p (drumSequencer s)\<rparr>"
  have d1: "toggleDrumSequencerStep instrument i s = Inr ?s1"
    using assms(2,4,5) by (simp add: toggleDrum_eq js_toggle)
  have l1: "map_of (drumSequencer ?s1) instrument = Some ?p"
    using assms(4) by (simp add: map_of_put_lane)
  have "toggleDrumSequencerStep instrument i ?s1
          = Inr (?s1\<lparr>drumSequencer := put_lane instrument (?p[i := \<not> ?p ! i]) (drumSequencer ?s1)\<rparr>)"
    using assms(2,5) toggleDrum_eq [OF l1, of i] by (simp add: js_toggle)
  moreover have "?p[i := \<not> ?p ! i] = steps"
    using assms(2,5) by (simp add: list_update_same_conv)
  ultimately have d2: "toggleDrumSequencerStep instrument i ?s1 = Inr s"
    using assms(3,4) by (simp add: put_lane_same)
  have o: "map_of (drumSequencer ?s1) = (map_of (drumSequencer s))(instrument \<mapsto> ?p)"
    using assms(4) by (auto simp: map_of_put_lane fun_eq_iff)
  from m t d1 d2 o assms(1,5) show ?thesis by simp
qed

theorem toggle_step_witness:
  "length (synthSequencer app0) = 16 \<and> (3::nat) < 16 \<and> distinct (map fst (drumSequencer app0))
   \<and> map_of (drumSequencer app0) ''snare'' = Some (replicate 16 False)
   \<and> length (replicate 16 False) = 16
   \<and> synthSequencer (toggleSynthSequencerStep 3 app0) = (replicate 16 False)[3 := True]
   \<and> toggleSynthSequencerStep 3 (toggleSynthSequencerStep 3 app0) = app0"
proof -
  have h: "length (synthSequencer app0) = 16" "distinct (map fst (drumSequencer app0))"
    "map_of (drumSequencer app0) ''snare'' = Some (replicate 16 False)"
    "synthSequencer app0 = replicate 16 False"
    by (simp_all add: app0_def)
  from toggle_step [OF h(1) _ h(2,3), of 3] h show ?thesis by simp
qed

subsection \<open>Invariants of the reachable states\<close>

lemma same_react_refl [simp]: "same_react s s"
  by (simp add: same_react_def)

lemma same_react_upd [simp]: "same_react s (s\<lparr>audio := e\<rparr>)"
  by (simp add: same_react_def)

lemma same_react_trans: "same_react s s' \<Longrightarrow> same_react s' s'' \<Longrightarrow> same_react s s''"
  unfolding same_react_def by (cases s, cases s', cases s'') simp

lemma same_reactD:
  assumes "same_react s s'"
  shows "currentStep s' = currentStep s" "synthSequencer s' = synthSequencer s"
    "drumSequencer s' = drumSequencer s" "isPlaying s' = isPlaying s"
    "delayEnabled s' = delayEnabled s" "reverbEnabled s' = reverbEnabled s"
    "compressionEnabled s' = compressionEnabled s" "duckKick s' = duckKick s"
    "synthParams s' = synthParams s" "drumParams s' = drumParams s" "timeouts s' = timeouts s"
    "captured s' = captured s" "interval s' = interval s" "wall s' = wall s"
  using assms unfolding same_react_def by (cases s, cases s', simp)+

lemma stale_frame [simp]:
  "audio (stale s) = audio s" "currentStep (stale s) = currentStep s"
  "synthSequencer (stale s) = synthSequencer s" "drumSequencer (stale s) = drumSequencer s"
  "compressionEnabled (stale s) = compressionEnabled s" "duckKick (stale s) = duckKick s"
  "isPlaying (stale s) = isPlaying s" "timeouts (stale s) = timeouts s"
  by (simp_all add: stale_def)

lemma sequencer_effect_frame [simp]:
  "audio (sequencer_effect s) = audio s" "currentStep (sequencer_effect s) = currentStep s"
  "synthSequencer (sequencer_effect s) = synthSequencer s"
  "drumSequencer (sequencer_effect s) = drumSequencer s"
  "isPlaying (sequencer_effect s) = isPlaying s"
  "delayEnabled (sequencer_effect s) = delayEnabled s"
  "reverbEnabled (sequencer_effect s) = reverbEnabled s"
  "compressionEnabled (sequencer_effect s) = compressionEnabled s"
  "duckKick (sequencer_effect s) = duckKick s"
  "synthParams (sequencer_effect s) = synthParams s"
  "drumParams (sequencer_effect s) = drumParams s"
  "timeouts (sequencer_effect s) = timeouts s" "wall (sequencer_effect s) = wall s"
  by (simp_all add: sequencer_effect_def)

lemma wait_frame [simp]:
  "audio (wait ms s) = audio s" "currentStep (wait ms s) = currentStep s"
  "synthSequencer (wait ms s) = synthSequencer s" "drumSequencer (wait ms s) = drumSequencer s"
  "isPlaying (wait ms s) = isPlaying s" "drumParams (wait ms s) = drumParams s"
  "interval (wait ms s) = interval s" "wall (wait ms s) = wall s + ms"
  by (simp_all add: wait_def)

lemma sequencer_effect_idle:
  "\<not> isPlaying s \<Longrightarrow> interval s = None \<Longrightarrow> captured s = capture s
   \<Longrightarrow> sequencer_effect s = s"
  by (simp add: sequencer_effect_def)

lemma same_react_chain: "same_react s (connectToEffectsChain n s)"
  by (simp add: connectToEffectsChain_def Let_def)

lemma same_react_playSynthNote: "same_react s (playSynthNote f s)"
  by (simp add: playSynthNote_def Let_def)

lemma same_react_playDrumSound: "same_react s (playDrumSound ty s)"
  by (simp add: playDrumSound_def kick_case_def snare_case_def hihat_case_def tom_case_def
      clap_case_def perc_case_def Let_def)

lemma same_react_play_drums: "same_react s (play_drums cs lanes s)"
proof (induction lanes arbitrary: s)
  case Nil
  then show ?case by (simp add: play_drums_def)
next
  case (Cons l lanes)
  obtain k v where l: "l = (k, v)" by (cases l)
  have "same_react s (if js_index v cs then playDrumSound k s else s)"
    by (simp add: same_react_playDrumSound)
  moreover have "play_drums cs (l # lanes) s
      = play_drums cs lanes (if js_index v cs then playDrumSound k s else s)"
    by (simp add: play_drums_def l)
  ultimately show ?case using Cons.IH same_react_trans by metis
qed

lemma graph_ok_added: "added_ok s s' \<Longrightarrow> graph_ok (audio s) \<Longrightarrow> graph_ok (audio s')"
  unfolding added_ok_def graph_ok_def outs_eq ins_eq by auto

lemma graph_ok_chain:
  "graph_ok (audio s) \<Longrightarrow> graph_ok (audio (connectToEffectsChain (Fresh k) s))"
  by (cases "delayEnabled s"; cases "reverbEnabled s"; cases "compressionEnabled s")
     (auto simp: connectToEffectsChain_def graph_ok_def)

lemma graph_ok_prims [simp]:
  "graph_ok (create k e) = graph_ok e"
  "graph_ok (set_type n k e) = graph_ok e"
  "graph_ok (set_value n p v e) = graph_ok e"
  "graph_ok (schedule n p ev e) = graph_ok e"
  "graph_ok (start n t e) = graph_ok e"
  "graph_ok (stop n t e) = graph_ok e"
  "graph_ok (connect (Fresh a) (Fresh b) e) = graph_ok e"
  by (simp_all add: graph_ok_def)

lemma graph_ok_playSynthNote:
  "graph_ok (audio s) \<Longrightarrow> graph_ok (audio (playSynthNote f s))"
  by (simp add: playSynthNote_def Let_def fresh_def graph_ok_chain)

lemma graph_ok_play_drums:
  "graph_ok (audio s) \<Longrightarrow> graph_ok (audio (play_drums cs lanes s))"
proof (induction lanes arbitrary: s)
  case Nil
  then show ?case by (simp add: play_drums_def)
next
  case (Cons l lanes)
  obtain k v where l: "l = (k, v)" by (cases l)
  have "graph_ok (audio (if js_index v cs then playDrumSound k s else s))"
    using Cons.prems graph_ok_added [OF added_ok_playDrumSound] by simp
  moreover have "play_drums cs (l # lanes) s
      = play_drums cs lanes (if js_index v cs then playDrumSound k s else s)"
    by (simp add: play_drums_def l)
  ultimately show ?case using Cons.IH by simp
qed

lemma outs_ins_initialized [simp]:
  "outs (e\<lparr>initialized := b\<rparr>) n = outs e n" "ins (e\<lparr>initialized := b\<rparr>) n = ins e n"
  "outs (e\<lparr>currentTime := t\<rparr>) n = outs e n" "ins (e\<lparr>currentTime := t\<rparr>) n = ins e n"
  by (simp_all add: outs_eq ins_eq)

lemma graph_ok_mount_engine: "graph_ok e \<Longrightarrow> graph_ok (mount_engine e)"
  by (auto simp: mount_engine_def Let_def graph_ok_def)

lemma graph_ok_mount: "graph_ok (audio s) \<Longrightarrow> graph_ok (audio (mount s))"
  by (simp add: audio_mount graph_ok_mount_engine)

lemma graph_ok_updateDelayParams [simp]:
  "graph_ok (audio (updateDelayParams s)) = graph_ok (audio s)"
  by (simp add: updateDelayParams_def)

lemma graph_ok_duck [simp]:
  "graph_ok (audio (duck s)) = graph_ok (audio s)"
  "graph_ok (audio (duck_release s)) = graph_ok (audio s)"
  by (simp_all add: duck_def duck_release_def)

lemma graph_ok_elapse [simp]: "graph_ok (audio (elapse dt s)) = graph_ok (audio s)"
  by (simp add: elapse_def graph_ok_def outs_eq ins_eq)

lemma graph_ok_engine0: "graph_ok engine0"
  by (simp add: graph_ok_def engine0_def outs_eq ins_eq)

lemma lanes_ok_same_react:
  "same_react s s' \<Longrightarrow> lanes_ok s' = lanes_ok s"
  by (simp add: lanes_ok_def same_reactD)

lemma kick_lane: "lanes_ok s \<Longrightarrow> \<exists>steps. map_of (drumSequencer s) ''kick'' = Some steps"
proof -
  assume "lanes_ok s"
  then have "''kick'' \<in> set (map fst (drumSequencer s))"
    by (simp add: lanes_ok_def drum_names_def)
  then have "map_of (drumSequencer s) ''kick'' \<noteq> None"
    by (simp add: map_of_eq_None_iff)
  then show ?thesis by blast
qed

lemma tick_eq:
  assumes "map_of (drumSequencer s) ''kick'' = Some steps"
  shows "tick s = Inr
      ((if compressionEnabled s \<and> duckKick s \<and> js_index steps (currentStep s)
        then duck (after_voices s) else after_voices s)
       \<lparr>currentStep := (currentStep s + 1) smod 16\<rparr>)"
  unfolding tick_def Let_def after_voices_def [symmetric]
  by (simp add: assms)

lemma same_react_after_voices: "same_react s (after_voices s)"
  by (simp add: after_voices_def)

lemma graph_ok_after_voices: "graph_ok (audio s) \<Longrightarrow> graph_ok (audio (after_voices s))"
  by (simp add: after_voices_def graph_ok_play_drums graph_ok_playSynthNote)

lemma same_react_mount: "same_react s (mount s)"
  by (simp add: mount_def updateDelayParams_def same_react_def)

lemma same_react_updateDelayParams: "same_react s (updateDelayParams s)"
  by (simp add: updateDelayParams_def)

lemma step_smod: "0 \<le> c \<Longrightarrow> (c + 1) smod 16 = (c + 1) mod (16::int)"
  by (simp add: signed_modulo_int_def)

lemma lanes_ok_step:
  "lanes_ok s \<Longrightarrow> same_react s x \<Longrightarrow> lanes_ok (x\<lparr>currentStep := (currentStep s + 1) smod 16\<rparr>)"
  by (simp add: lanes_ok_def same_reactD step_smod)

lemma inv_frame [simp]:
  "lanes_ok (sequencer_effect s) = lanes_ok s" "lanes_ok (wait ms s) = lanes_ok s"
  "inv (sequencer_effect s) = inv s" "inv (wait ms s) = inv s"
  by (simp_all add: inv_def lanes_ok_def)

lemma inv_tick:
  assumes "inv s" and "tick s = Inr s'"
  shows "inv s'"
proof -
  from assms(1) have l: "lanes_ok s" and g: "graph_ok (audio s)" by (simp_all add: inv_def)
  from kick_lane [OF l] obtain steps where k: "map_of (drumSequencer s) ''kick'' = Some steps"
    by blast
  let ?x = "if compressionEnabled s \<and> duckKick s \<and> js_index steps (currentStep s)
        then duck (after_voices s) else after_voices s"
  have s': "s' = ?x\<lparr>currentStep := (currentStep s + 1) smod 16\<rparr>"
    using tick_eq [OF k] assms(2) by simp
  have d: "lanes_ok (duck (after_voices s)\<lparr>currentStep := (currentStep s + 1) smod 16\<rparr>)"
    using l same_react_after_voices [of s]
    by (simp add: lanes_ok_def same_reactD step_smod duck_def)
  have "lanes_ok s'"
    unfolding s' using d lanes_ok_step [OF l same_react_after_voices] by simp
  moreover have "graph_ok (audio s')"
    unfolding s' using graph_ok_after_voices [OF g] by simp
  ultimately show ?thesis by (simp add: inv_def)
qed

lemma list_all_put_lane:
  "list_all (\<lambda>l. length (snd l) = n) ds \<Longrightarrow> length x = n
   \<Longrightarrow> list_all (\<lambda>l. length (snd l) = n) (put_lane a x ds)"
  by (induction ds) (auto simp: put_lane_def)

lemma length_js_assign: "i < length xs \<Longrightarrow> length (js_assign xs i v) = length xs"
  by (simp add: js_assign_def)

lemma lane_length:
  "list_all (\<lambda>l. length (snd l) = n) ds \<Longrightarrow> map_of ds a = Some x \<Longrightarrow> length x = n"
  by (induction ds) (auto split: if_splits)

lemma reachable_inv: "reachable s \<Longrightarrow> inv s"
proof (induction rule: reachable.induct)
  case r_init
  show ?case
    by (simp add: inv_def lanes_ok_def app0_def drum_names_def graph_ok_engine0)
next
  case (r_mount s)
  then show ?case
    by (simp add: inv_def lanes_ok_same_react [OF same_react_mount] graph_ok_mount)
next
  case (r_play s)
  then show ?case by (simp add: inv_def lanes_ok_def togglePlay_def)
next
  case (r_tick s t s')
  then show ?case using inv_tick by simp
next
  case (r_timeout s)
  then show ?case by (simp add: inv_def lanes_ok_def duck_release_def)
next
  case (r_delay s)
  then show ?case by (simp add: inv_def lanes_ok_def)
next
  case (r_reverb s)
  then show ?case by (simp add: inv_def lanes_ok_def)
next
  case (r_compression s)
  then show ?case by (simp add: inv_def lanes_ok_def)
next
  case (r_duckKick s)
  then show ?case by (simp add: inv_def lanes_ok_def)
next
  case (r_synth_step s index)
  then show ?case
    by (simp add: inv_def lanes_ok_def toggleSynthSequencerStep_def length_js_assign)
next
  case (r_drum_step s instrument steps index s')
  from r_drum_step.hyps(3,5) have s': "s' = s\<lparr>drumSequencer :=
      put_lane instrument (js_assign steps index (\<not> js_index steps (int index))) (drumSequencer s)\<rparr>"
    by (simp add: toggleDrum_eq)
  from r_drum_step.IH have l: "list_all (\<lambda>l. length (snd l) = 16) (drumSequencer s)"
    by (simp add: inv_def lanes_ok_def)
  have "length steps = 16" using lane_length [OF l r_drum_step.hyps(3)] .
  with r_drum_step.hyps(4) have "length (js_assign steps index (\<not> js_index steps (int index))) = 16"
    by (simp add: length_js_assign)
  with r_drum_step.IH l show ?case
    unfolding s' by (simp add: inv_def lanes_ok_def list_all_put_lane)
next
  case (r_synth_param s sp)
  have "same_react (s\<lparr>synthParams := sp\<rparr>) (updateDelayParams (s\<lparr>synthParams := sp\<rparr>))"
    by (rule same_react_updateDelayParams)
  from lanes_ok_same_react [OF this] r_synth_param show ?case
    by (simp add: inv_def lanes_ok_def)
next
  case (r_drum_param s dp)
  then show ?case by (simp add: inv_def lanes_ok_def)
next
  case (r_elapse s dt)
  then show ?case by (simp add: inv_def lanes_ok_def elapse_def graph_ok_def)
next
  case (r_wait s ms)
  then show ?case by simp
qed

lemma timer_ok_effect [simp]: "timer_ok (sequencer_effect s)"
  by (simp add: timer_ok_def sequencer_effect_def)

lemma reachable_timer_ok: "reachable s \<Longrightarrow> timer_ok s"
proof (induction rule: reachable.induct)
  case r_init
  show ?case by (simp add: timer_ok_def app0_def)
next
  case (r_timeout s)
  then show ?case by (auto simp: timer_ok_def duck_release_def split: option.splits)
next
  case (r_delay s)
  then show ?case by (auto simp: timer_ok_def split: option.splits)
next
  case (r_reverb s)
  then show ?case by (auto simp: timer_ok_def split: option.splits)
next
  case (r_synth_param s sp)
  then show ?case by (auto simp: timer_ok_def updateDelayParams_def split: option.splits)
next
  case (r_drum_param s dp)
  show ?case
  proof (cases "tempo dp = tempo (drumParams s)")
    case True
    with r_drum_param.IH show ?thesis by (auto simp: timer_ok_def split: option.splits)
  next
    case False
    then show ?thesis by simp
  qed
next
  case (r_elapse s dt)
  then show ?case by (auto simp: timer_ok_def elapse_def split: option.splits)
next
  case (r_wait s ms)
  then show ?case by (auto simp: timer_ok_def split: option.splits)
qed simp_all

lemma registered_while_playing:
  assumes "reachable s" and "isPlaying s"
  obtains t where "interval s = Some t" and "period_ms t = stepTime (tempo (drumParams s))"
    and "set_at t \<le> wall s"
  using reachable_timer_ok [OF assms(1)] assms(2)
  by (auto simp: timer_ok_def split: option.splits)

subsection \<open>The tick of the sequencer\<close>

lemma assignments_playSynthNote:
  "initialized (audio s) \<Longrightarrow>
   assignments (audio (playSynthNote f s)) = assignments (audio s) @
     [((Fresh (next_id (audio s)), POscFrequency), f),
      ((Fresh (Suc (next_id (audio s))), PGain), 0),
      ((Fresh (Suc (Suc (next_id (audio s)))), PFilterFrequency), 20000),
      ((Fresh (Suc (Suc (next_id (audio s)))), PQ), resonance (synthParams s) / 10)]"
  by (simp add: playSynthNote_def Let_def fresh_def)

lemma assignments_playDrumSound [simp]:
  "assignments (audio (playDrumSound ty s)) = assignments (audio s)"
  by (simp add: playDrumSound_def kick_case_def snare_case_def hihat_case_def tom_case_def
      clap_case_def perc_case_def Let_def)

lemma duck_events_playDrumSound [simp]:
  "events_of (audio (playDrumSound ty s)) DuckGain p = events_of (audio s) DuckGain p"
  by (simp add: events_of_def playDrumSound_def kick_case_def snare_case_def hihat_case_def
      tom_case_def clap_case_def perc_case_def Let_def fresh_def)

lemma duck_events_playSynthNote [simp]:
  "events_of (audio (playSynthNote f s)) DuckGain p = events_of (audio s) DuckGain p"
  by (simp add: events_of_def playSynthNote_def Let_def fresh_def)

lemma drum_frame:
  "currentTime (audio (playDrumSound ty s)) = currentTime (audio s)"
  "initialized (audio (playDrumSound ty s)) = initialized (audio s)"
  by (simp_all add: playDrumSound_def kick_case_def snare_case_def hihat_case_def tom_case_def
      clap_case_def perc_case_def Let_def)

lemma synth_frame:
  "currentTime (audio (playSynthNote f s)) = currentTime (audio s)"
  "initialized (audio (playSynthNote f s)) = initialized (audio s)"
  by (simp_all add: playSynthNote_def Let_def)

lemma play_drums_Cons:
  "play_drums cs ((k, v) # lanes) s
     = play_drums cs lanes (if js_index v cs then playDrumSound k s else s)"
  by (simp add: play_drums_def)

lemma play_drums_preserve:
  assumes "\<And>ty a. P (playDrumSound ty a) = P a"
  shows "P (play_drums cs lanes s) = P s"
proof (induction lanes arbitrary: s)
  case Nil
  show ?case by (simp add: play_drums_def)
next
  case (Cons l lanes)
  obtain k v where l: "l = (k, v)" by (cases l)
  show ?case unfolding l play_drums_Cons using Cons.IH assms by simp
qed

lemma play_drums_frame [simp]:
  "assignments (audio (play_drums cs lanes s)) = assignments (audio s)"
  "events_of (audio (play_drums cs lanes s)) DuckGain p = events_of (audio s) DuckGain p"
  "currentTime (audio (play_drums cs lanes s)) = currentTime (audio s)"
  "initialized (audio (play_drums cs lanes s)) = initialized (audio s)"
  using play_drums_preserve [of "\<lambda>a. assignments (audio a)"]
    play_drums_preserve [of "\<lambda>a. events_of (audio a) DuckGain p"]
    play_drums_preserve [of "\<lambda>a. currentTime (audio a)"]
    play_drums_preserve [of "\<lambda>a. initialized (audio a)"]
  by (simp_all add: drum_frame)

lemma melodic_after_voices:
  "initialized (audio s) \<Longrightarrow>
   melodic_triggers (audio (after_voices s)) = melodic_triggers (audio s) @
     (if js_index (synthSequencer s) (currentStep s)
      then [(Fresh (next_id (audio s)), 300 + real_of_int (currentStep s) * 20)] else [])"
  by (simp add: after_voices_def melodic_triggers_def assignments_playSynthNote)

lemma duck_events_after_voices [simp]:
  "events_of (audio (after_voices s)) DuckGain p = events_of (audio s) DuckGain p"
  by (simp add: after_voices_def)

lemma after_voices_time [simp]:
  "currentTime (audio (after_voices s)) = currentTime (audio s)"
  "initialized (audio (after_voices s)) = initialized (audio s)"
  by (simp_all add: after_voices_def synth_frame)

lemma duck_events:
  "events_of (audio (duck s)) DuckGain PGain = events_of (audio s) DuckGain PGain @
     (if initialized (audio s) then [SetTargetAtTime 0.3 (currentTime (audio s)) 0.05] else [])"
  "events_of (audio (duck_release s)) DuckGain PGain = events_of (audio s) DuckGain PGain @
     (if initialized (audio s) then [SetTargetAtTime 1 (currentTime (audio s)) 0.1] else [])"
  by (simp_all add: duck_def duck_release_def events_of_def)

lemma duck_assignments [simp]: "assignments (audio (duck s)) = assignments (audio s)"
  by (simp add: duck_def)

lemma js_index_nth: "0 \<le> i \<Longrightarrow> i < int (length xs) \<Longrightarrow> js_index xs i = xs ! nat i"
  by (auto simp: js_index_def nat_less_iff)

lemma idle_mount_app0:
  "\<not> isPlaying (mount app0)" "interval (mount app0) = None"
  "captured (mount app0) = capture (mount app0)" "wall (mount app0) = 0"
  by (simp_all add: mount_def updateDelayParams_def app0_def capture_def)

lemma reachable_mount_app0: "reachable (mount app0)"
proof -
  have "reachable (sequencer_effect (mount app0))"
    by (rule reachable.r_mount [OF reachable.r_init]) (simp add: app0_def engine0_def)
  then show ?thesis by (simp add: sequencer_effect_idle idle_mount_app0)
qed

lemma assignments_mount_app0:
  "melodic_triggers (audio (mount app0)) = []" "events_of (audio (mount app0)) DuckGain PGain = []"
  by (simp_all add: melodic_triggers_def events_of_def audio_mount mount_engine_def Let_def)
     (simp_all add: app0_def engine0_def)

lemma reachable_playing_state: "reachable playing_state"
proof -
  have "length (synthSequencer (mount app0)) = 16"
    by (simp add: mount_def updateDelayParams_def app0_def)
  then show ?thesis
    unfolding playing_state_def
    by (intro reachable.r_play reachable.r_synth_step reachable_mount_app0) simp
qed

lemma playing_state_facts:
  "audio playing_state = audio (mount app0)" "currentStep playing_state = 0"
  "isPlaying playing_state" "synthSequencer playing_state = True # replicate 15 False"
  "drumParams playing_state = defaultDrumParams" "wall playing_state = 0"
  "interval playing_state = Some \<lparr> period_ms = 125, set_at = 0 \<rparr>"
  by (simp_all add: playing_state_def sequencer_effect_def toggleSynthSequencerStep_def
      togglePlay_def js_assign_def js_index_def mount_def updateDelayParams_def app0_def
      numeral_eq_Suc stepTime_def defaultDrumParams_def)

lemma started_facts:
  "reachable started" "isPlaying started" "wall started = 0"
  "interval started = Some \<lparr> period_ms = 125, set_at = 0 \<rparr>"
  "length (synthSequencer started) = 16"
proof -
  show "reachable started"
    unfolding started_def by (intro reachable.r_play reachable_mount_app0)
qed (simp_all add: started_def sequencer_effect_def togglePlay_def mount_def
      updateDelayParams_def app0_def stepTime_def defaultDrumParams_def)

lemma edited_facts:
  "reachable (wait 100 edited_at_100)" "isPlaying edited_at_100"
  "wall edited_at_100 = 100" "currentStep edited_at_100 = 0"
  "interval edited_at_100 = Some \<lparr> period_ms = 125, set_at = 100 \<rparr>"
  "melodic_triggers (audio edited_at_100) = []"
  "drumParams edited_at_100 = defaultDrumParams"
proof -
  have "reachable (wait 100 started)"
    by (rule reachable.r_wait [OF started_facts(1)]) simp
  then have "reachable edited_at_100"
    unfolding edited_at_100_def
    by (rule reachable.r_synth_step) (simp add: started_facts(5))
  then show "reachable (wait 100 edited_at_100)"
    by (rule reachable.r_wait) simp
  have a: "audio edited_at_100 = audio (mount app0)"
    by (simp add: edited_at_100_def toggleSynthSequencerStep_def started_def togglePlay_def)
  show "melodic_triggers (audio edited_at_100) = []"
    by (simp only: a assignments_mount_app0)
qed (simp_all add: edited_at_100_def sequencer_effect_def toggleSynthSequencerStep_def
      wait_def started_def togglePlay_def mount_def updateDelayParams_def app0_def stepTime_def
      defaultDrumParams_def)




subsection \<open>The duck gain\<close>

lemma duck_made_mount: "((DuckGain, PGain), 1) \<in> set (assignments (audio (mount s)))"
  by (simp add: audio_mount mount_engine_def Let_def)

lemma graph_ok_tick_parts:
  "graph_ok (audio s) \<Longrightarrow> graph_ok (audio (duck (after_voices s)))"
  "graph_ok (audio s) \<Longrightarrow> graph_ok (audio (after_voices s))"
  by (simp_all add: graph_ok_after_voices)

lemma reachable_ducking_state: "reachable ducking_state"
proof -
  let ?a = "(mount app0)\<lparr>compressionEnabled := \<not> compressionEnabled (mount app0)\<rparr>"
  let ?b = "?a\<lparr>duckKick := \<not> duckKick ?a\<rparr>"
  have "sequencer_effect ?a = ?a"
    by (rule sequencer_effect_idle) (simp_all add: idle_mount_app0 capture_def)
  with reachable.r_compression [OF reachable_mount_app0] have ra: "reachable ?a" by simp
  have "sequencer_effect ?b = ?b"
    by (rule sequencer_effect_idle) (simp_all add: idle_mount_app0 capture_def)
  with reachable.r_duckKick [OF ra] have rb: "reachable ?b" by simp
  have m: "map_of (drumSequencer ?b) ''kick'' = Some (replicate 16 False)"
    "drumSequencer ?b = drumSequencer app0" "\<not> duckKick (mount app0)"
    by (simp_all add: mount_def updateDelayParams_def app0_def)
  have d: "\<not> duckKick app0" "\<not> compressionEnabled app0" by (simp_all add: app0_def)
  have t: "toggleDrumSequencerStep ''kick'' 0 ?b = Inr ducking_state"
    unfolding toggleDrum_eq [OF m(1)]
    by (simp add: ducking_state_def m js_assign_def js_index_def numeral_eq_Suc
        same_reactD [OF same_react_mount] d)
  have "sequencer_effect ducking_state = ducking_state"
    by (rule sequencer_effect_idle)
       (simp_all add: ducking_state_def idle_mount_app0 capture_def)
  moreover have "reachable (sequencer_effect ducking_state)"
    by (rule reachable.r_drum_step [OF rb _ m(1) _ t]) (simp_all add: drum_names_def)
  ultimately show ?thesis by simp
qed

text \<open>
  C10. The mount effect creates the duck gain (and assigns its gain 1). In every reachable
  state no connection enters or leaves the duck gain. A tick schedules on it the approach
  to 0.3 with time constant 0.05 exactly when the engine is mounted, compression and
  duck-on-kick are enabled and the kick lane is active at the cursor, and still connects
  it to nothing; the timeout schedules the approach back to 1 with time constant 0.1.
\<close>

theorem duck_gain_isolated:
  assumes "reachable s"
  shows "ins (audio s) DuckGain = {} \<and> outs (audio s) DuckGain = {}
     \<and> ((DuckGain, PGain), 1) \<in> set (assignments (audio (mount s)))
     \<and> (\<exists>s'. tick s = Inr s'
          \<and> events_of (audio s') DuckGain PGain = events_of (audio s) DuckGain PGain @
               (if initialized (audio s) \<and> compressionEnabled s \<and> duckKick s \<and> kick_active s
                then [SetTargetAtTime 0.3 (currentTime (audio s)) 0.05] else [])
          \<and> ins (audio s') DuckGain = {} \<and> outs (audio s') DuckGain = {})
     \<and> events_of (audio (duck_release s)) DuckGain PGain = events_of (audio s) DuckGain PGain @
          (if initialized (audio s) then [SetTargetAtTime 1 (currentTime (audio s)) 0.1] else [])"
proof -
  from reachable_inv [OF assms] have l: "lanes_ok s" and g: "graph_ok (audio s)"
    by (simp_all add: inv_def)
  from kick_lane [OF l] obtain steps where k: "map_of (drumSequencer s) ''kick'' = Some steps"
    by blast
  let ?x = "if compressionEnabled s \<and> duckKick s \<and> js_index steps (currentStep s)
        then duck (after_voices s) else after_voices s"
  let ?s' = "?x\<lparr>currentStep := (currentStep s + 1) smod 16\<rparr>"
  have t: "tick s = Inr ?s'" by (rule tick_eq [OF k])
  have ka: "kick_active s = js_index steps (currentStep s)"
    by (simp add: kick_active_def k)
  have e: "events_of (audio ?s') DuckGain PGain = events_of (audio s) DuckGain PGain @
               (if initialized (audio s) \<and> compressionEnabled s \<and> duckKick s \<and> kick_active s
                then [SetTargetAtTime 0.3 (currentTime (audio s)) 0.05] else [])"
    by (simp add: ka duck_events)
  have "graph_ok (audio ?s')" using graph_ok_tick_parts [OF g] by simp
  then have i: "ins (audio ?s') DuckGain = {}" "outs (audio ?s') DuckGain = {}"
    by (simp_all add: graph_ok_def)
  from g have i0: "ins (audio s) DuckGain = {}" "outs (audio s) DuckGain = {}"
    by (simp_all add: graph_ok_def)
  have "\<exists>s'. tick s = Inr s'
          \<and> events_of (audio s') DuckGain PGain = events_of (audio s) DuckGain PGain @
               (if initialized (audio s) \<and> compressionEnabled s \<and> duckKick s \<and> kick_active s
                then [SetTargetAtTime 0.3 (currentTime (audio s)) 0.05] else [])
          \<and> ins (audio s') DuckGain = {} \<and> outs (audio s') DuckGain = {}"
    using t e i by blast
  with i0 duck_made_mount [of s] duck_events(2) [of s] show ?thesis by blast
qed

theorem duck_gain_isolated_witness:
  "reachable ducking_state
   \<and> ins (audio ducking_state) DuckGain = {} \<and> outs (audio ducking_state) DuckGain = {}
   \<and> (\<exists>s'. tick ducking_state = Inr s'
         \<and> events_of (audio s') DuckGain PGain = [SetTargetAtTime 0.3 0 0.05]
         \<and> ins (audio s') DuckGain = {} \<and> outs (audio s') DuckGain = {})"
proof -
  have f: "audio ducking_state = audio (mount app0)" "compressionEnabled ducking_state"
    "duckKick ducking_state" "kick_active ducking_state"
    by (simp_all add: ducking_state_def kick_active_def map_of_put_lane js_index_def)
       (simp_all add: app0_def mount_def updateDelayParams_def)
  from duck_gain_isolated [OF reachable_ducking_state] reachable_ducking_state show ?thesis
    by (simp add: f assignments_mount_app0)
qed

subsection \<open>Routing twice\<close>

lemma chain_flags [simp]:
  "delayEnabled (connectToEffectsChain n s) = delayEnabled s"
  "reverbEnabled (connectToEffectsChain n s) = reverbEnabled s"
  "compressionEnabled (connectToEffectsChain n s) = compressionEnabled s"
  using same_reactD [OF same_react_chain] by simp_all

lemma edges_list_prims:
  "edges (connect a b e) = List.insert (a, b) (edges e)"
  "edges (disconnect a e) = filter (\<lambda>c. fst c \<noteq> a) (edges e)"
  by (simp_all add: connect_def disconnect_def)

lemma edges_mount_engine:
  "edges (mount_engine e) =
     List.insert (Master, Compressor) (List.insert (Compressor, Destination)
       (List.insert (Reverb, Compressor) (List.insert (Delay, Reverb)
         (List.insert (Delay, DelayFeedback) (List.insert (DelayFeedback, Delay)
           (List.insert (Delay, DelayFeedback) (edges e)))))))"
  by (simp add: mount_engine_def Let_def edges_list_prims)

lemma edges_mount_app0:
  "edges (audio (mount app0)) =
     [(Master, Compressor), (Compressor, Destination), (Reverb, Compressor), (Delay, Reverb),
      (DelayFeedback, Delay), (Delay, DelayFeedback)]"
  by (simp add: audio_mount edges_mount_engine) (simp add: app0_def engine0_def)

lemma reroute_frame [simp]:
  "initialized (audio (reroute d r c n s)) = initialized (audio s)"
  "delayEnabled (reroute d r c n s) = d" "reverbEnabled (reroute d r c n s) = r"
  "compressionEnabled (reroute d r c n s) = c"
  by (simp_all add: reroute_def)

lemma audio_flags_upd [simp]:
  "audio (s\<lparr>delayEnabled := d\<rparr>) = audio s" "audio (s\<lparr>reverbEnabled := r\<rparr>) = audio s"
  "audio (s\<lparr>compressionEnabled := c\<rparr>) = audio s"
  by simp_all

lemma outs_chain:
  assumes "initialized (audio s)"
  shows "outs (audio (connectToEffectsChain (Fresh k) s)) m =
     (if m = Fresh k
      then {first_stage (delayEnabled s) (reverbEnabled s) (compressionEnabled s)}
      else if m = Delay \<and> delayEnabled s
      then {after_delay (reverbEnabled s) (compressionEnabled s)}
      else if m = Reverb \<and> reverbEnabled s then {after_reverb (compressionEnabled s)}
      else if m = Compressor \<and> compressionEnabled s
      then insert Destination (outs (audio s) m)
      else outs (audio s) m)"
  using assms
  by (cases "delayEnabled s"; cases "reverbEnabled s"; cases "compressionEnabled s")
     (auto simp: connectToEffectsChain_def first_stage_def after_delay_def after_reverb_def)

lemma outs_reroute:
  assumes "initialized (audio s)"
  shows "outs (audio (reroute d r c (Fresh k) s)) m =
     (if m = Fresh k then {first_stage d r c}
      else if m = Delay \<and> d then {after_delay r c}
      else if m = Reverb \<and> r then {after_reverb c}
      else if m = Compressor \<and> c then insert Destination (outs (audio s) m)
      else outs (audio s) m)"
  unfolding reroute_def
  using outs_chain [of "s\<lparr>delayEnabled := d, reverbEnabled := r, compressionEnabled := c\<rparr>" k m]
    assms
  by simp

lemma chain_outs_reroute:
  assumes "initialized (audio s)" and "outs (audio s) Compressor \<subseteq> {Destination}"
  shows "map (outs (audio (reroute d r c (Fresh k) s))) (Fresh k # spec_computeTopology d r c)
         = map (\<lambda>n. {n}) (spec_computeTopology d r c @ [Destination])"
proof -
  let ?t = "s\<lparr>delayEnabled := d, reverbEnabled := r, compressionEnabled := c\<rparr>"
  have "initialized (audio ?t)" "outs (audio ?t) Compressor \<subseteq> {Destination}"
    using assms by simp_all
  from chain_outs [OF this, of k] show ?thesis
    by (simp add: reroute_def stages_of_def)
qed

lemma edges_by_outs:
  assumes "\<And>m. m \<notin> T \<Longrightarrow> outs e m = outs e' m"
  shows "{c \<in> set (edges e). fst c \<notin> T} = {c \<in> set (edges e'). fst c \<notin> T}"
proof -
  have "\<And>a b. a \<notin> T \<Longrightarrow> ((a, b) \<in> set (edges e)) = ((a, b) \<in> set (edges e'))"
    using assms unfolding outs_eq by blast
  then show ?thesis by auto
qed

lemma round_trip_outs:
  assumes "initialized (audio s)" and "outs (audio s) Compressor = {Destination}"
    and "m \<notin> set (only_between d r s)"
  shows "outs (audio (reroute (delayEnabled s) (reverbEnabled s) (compressionEnabled s)
            (Fresh k) (reroute d r c (Fresh k) (connectToEffectsChain (Fresh k) s)))) m
       = outs (audio (connectToEffectsChain (Fresh k) s)) m"
proof -
  have i: "initialized (audio (connectToEffectsChain (Fresh k) s))"
    "initialized (audio (reroute d r c (Fresh k) (connectToEffectsChain (Fresh k) s)))"
    using assms(1) by simp_all
  note o = outs_reroute [OF i(2)] outs_reroute [OF i(1)] outs_chain [OF assms(1)]
  consider "m = Fresh k" | "m = Delay" | "m = Reverb" | "m = Compressor"
    | "m \<noteq> Fresh k" "m \<noteq> Delay" "m \<noteq> Reverb" "m \<noteq> Compressor"
    by blast
  then show ?thesis
  proof cases
    case 1
    then show ?thesis by (simp add: o)
  next
    case 2
    with assms(3) show ?thesis by (simp add: o only_between_def split: if_splits)
  next
    case 3
    with assms(3) show ?thesis by (simp add: o only_between_def split: if_splits)
  next
    case 4
    with assms(2) show ?thesis by (simp add: o)
  next
    case 5
    then show ?thesis by (simp add: o)
  qed
qed

lemma comp_out_chain:
  "Destination \<in> outs (audio s) Compressor
   \<Longrightarrow> Destination \<in> outs (audio (connectToEffectsChain (Fresh k) s)) Compressor"
  by (cases "delayEnabled s"; cases "reverbEnabled s"; cases "compressionEnabled s")
     (auto simp: connectToEffectsChain_def)

lemma comp_out_playSynthNote:
  "Destination \<in> outs (audio s) Compressor
   \<Longrightarrow> Destination \<in> outs (audio (playSynthNote f s)) Compressor"
  by (simp add: playSynthNote_def Let_def fresh_def comp_out_chain)

lemma comp_out_playDrumSound:
  "outs (audio (playDrumSound ty s)) Compressor = outs (audio s) Compressor"
  using fx_frame(1) [OF added_ok_playDrumSound [where s = s and ty = ty]]
  by (simp add: fx_nodes_def)

lemma comp_out_after_voices:
  "Destination \<in> outs (audio s) Compressor
   \<Longrightarrow> Destination \<in> outs (audio (after_voices s)) Compressor"
  unfolding after_voices_def
  using play_drums_preserve [of "\<lambda>a. outs (audio a) Compressor", OF comp_out_playDrumSound]
    comp_out_playSynthNote [of "stale s"]
  by simp

lemma comp_out_tick:
  assumes "tick s = Inr s'" and "lanes_ok s" and "Destination \<in> outs (audio s) Compressor"
  shows "Destination \<in> outs (audio s') Compressor"
proof -
  from kick_lane [OF assms(2)] obtain steps
    where k: "map_of (drumSequencer s) ''kick'' = Some steps" by blast
  from tick_eq [OF k] assms(1) comp_out_after_voices [OF assms(3)] show ?thesis
    by (auto simp: duck_def)
qed

lemma tick_initialized:
  assumes "tick s = Inr s'" and "lanes_ok s"
  shows "initialized (audio s') = initialized (audio s)"
proof -
  from kick_lane [OF assms(2)] obtain steps
    where k: "map_of (drumSequencer s) ''kick'' = Some steps" by blast
  from tick_eq [OF k] assms(1) show ?thesis by (auto simp: duck_def)
qed

lemma reachable_comp_out:
  "reachable s \<Longrightarrow> initialized (audio s) \<longrightarrow> Destination \<in> outs (audio s) Compressor"
proof (induction rule: reachable.induct)
  case r_init
  show ?case by (simp add: app0_def engine0_def)
next
  case (r_mount s)
  show ?case by (simp add: audio_mount mount_engine_def Let_def)
next
  case (r_play s)
  then show ?case by (simp add: togglePlay_def)
next
  case (r_tick s t s')
  from reachable_inv [OF r_tick.hyps(1)] have l: "lanes_ok s" by (simp add: inv_def)
  from r_tick.IH comp_out_tick [OF r_tick.hyps(3) l] tick_initialized [OF r_tick.hyps(3) l]
  show ?case by simp
next
  case (r_timeout s)
  then show ?case by (simp add: duck_release_def)
next
  case (r_synth_step s index)
  then show ?case by (simp add: toggleSynthSequencerStep_def)
next
  case (r_drum_step s instrument steps index s')
  from r_drum_step.hyps(3,5) r_drum_step.IH show ?case by (auto simp: toggleDrum_eq)
next
  case (r_synth_param s sp)
  then show ?case by (simp add: updateDelayParams_def)
next
  case (r_elapse s dt)
  then show ?case by (simp add: elapse_def)
qed simp_all

lemma reachable_compressor:
  assumes "reachable s" and "initialized (audio s)"
  shows "outs (audio s) Compressor = {Destination}"
  using reachable_inv [OF assms(1)] reachable_comp_out [OF assms(1)] assms(2)
  by (auto simp: inv_def graph_ok_def)

lemma flags_app0 [simp]:
  "delayEnabled app0 = False" "reverbEnabled app0 = False" "compressionEnabled app0 = False"
  by (simp_all add: app0_def)

lemma edges_chain:
  "initialized (audio s) \<Longrightarrow> \<not> delayEnabled s \<Longrightarrow> \<not> reverbEnabled s \<Longrightarrow> \<not> compressionEnabled s
   \<Longrightarrow> edges (audio (connectToEffectsChain n s))
       = List.insert (n, Destination) (filter (\<lambda>c. fst c \<noteq> n)
           (List.insert (n, Master) (filter (\<lambda>c. fst c \<noteq> n) (edges (audio s)))))"
  "initialized (audio s) \<Longrightarrow> delayEnabled s \<Longrightarrow> \<not> reverbEnabled s \<Longrightarrow> \<not> compressionEnabled s
   \<Longrightarrow> edges (audio (connectToEffectsChain n s))
       = List.insert (Delay, Destination) (filter (\<lambda>c. fst c \<noteq> Delay)
           (List.insert (Delay, Master) (filter (\<lambda>c. fst c \<noteq> Delay)
              (List.insert (n, Delay) (filter (\<lambda>c. fst c \<noteq> n) (edges (audio s)))))))"
  by (simp_all add: connectToEffectsChain_def Let_def edges_list_prims)

lemma edges_routed_once:
  "edges (audio (connectToEffectsChain (Fresh 0) (mount app0))) =
     [(Fresh 0, Destination), (Master, Compressor), (Compressor, Destination),
      (Reverb, Compressor), (Delay, Reverb), (DelayFeedback, Delay), (Delay, DelayFeedback)]"
  by (simp add: edges_chain edges_mount_app0)

lemma edges_round_trip:
  "edges (audio (reroute False False False (Fresh 0)
        (reroute True False False (Fresh 0) (connectToEffectsChain (Fresh 0) (mount app0))))) =
     [(Fresh 0, Destination), (Delay, Destination), (Master, Compressor),
      (Compressor, Destination), (Reverb, Compressor), (DelayFeedback, Delay)]"
  by (simp add: reroute_def edges_chain edges_routed_once)



lemma edges_chain_compression:
  "initialized (audio s) \<Longrightarrow> \<not> delayEnabled s \<Longrightarrow> \<not> reverbEnabled s \<Longrightarrow> compressionEnabled s
   \<Longrightarrow> edges (audio (connectToEffectsChain n s))
       = List.insert (Compressor, Destination) (List.insert (n, Compressor)
           (filter (\<lambda>c. fst c \<noteq> n)
              (List.insert (n, Master) (filter (\<lambda>c. fst c \<noteq> n) (edges (audio s))))))"
  by (simp add: connectToEffectsChain_def Let_def edges_list_prims)

lemma edges_compression_routed:
  "edges (audio (connectToEffectsChain (Fresh 0)
          (mount (app0\<lparr>compressionEnabled := True\<rparr>)))) =
     [(Fresh 0, Compressor), (Master, Compressor), (Compressor, Destination),
      (Reverb, Compressor), (Delay, Reverb), (DelayFeedback, Delay), (Delay, DelayFeedback)]"
proof -
  have e: "edges (audio (mount (app0\<lparr>compressionEnabled := True\<rparr>)))
      = edges (audio (mount app0))"
    by (simp add: audio_mount app0_def)
  have f: "initialized (audio (mount (app0\<lparr>compressionEnabled := True\<rparr>)))"
    "\<not> delayEnabled (mount (app0\<lparr>compressionEnabled := True\<rparr>))"
    "\<not> reverbEnabled (mount (app0\<lparr>compressionEnabled := True\<rparr>))"
    "compressionEnabled (mount (app0\<lparr>compressionEnabled := True\<rparr>))"
    by (simp_all add: audio_mount)
  show ?thesis
    unfolding edges_chain_compression [OF f] e edges_mount_app0 by simp
qed


end
